theory Spec2Isabelle
  imports Complex_Main
begin

section \<open>Seabed backscatter map: the pipeline of \<open>seabed_map.py\<close>\<close>

text \<open>
  The script reads a recorded bag of timestamped messages once, keeps the latest
  vehicle pose, turns every selected sonar frame into world coordinates and, when the
  bag is exhausted, bins all samples into a grid of mean intensities.

  Conventions of the embedding.
  \<^item> Python's unbounded \<open>int\<close> is \<open>int\<close>; a finite \<open>float\<close> is idealised as a
    \<open>real\<close> (no rounding, no NaN or infinity; the one place where the script would
    produce an infinity or a NaN, a division by a zero resolution, is written out as the
    error that \<open>int(...)\<close> raises on it).
  \<^item> The bag reader, the message deserialiser, \<open>utm.from_latlon\<close>,
    \<open>unpack_data_entry\<close> and \<open>polar_to_cart\<close> are libraries outside the
    repository. An event of the stream carries what they return for the message: the
    easting and northing of a position fix, the number of a heading or altitude
    message, and for a sonar message either \<open>None\<close> (\<open>ping is None\<close>) or the
    Cartesian frame.
  \<^item> \<open>x_table\<close>, \<open>y_table\<close> and \<open>cart_image\<close> of a Cartesian frame have one
    shape, so the three flattened tables are one list of pixels.
  \<^item> \<open>numpy\<close> is a library as well. \<open>np.histogram2d\<close> and what it calls
    (\<open>histogramdd\<close>, \<open>_get_outer_edges\<close>, \<open>linspace\<close>, \<open>searchsorted\<close>,
    \<open>bincount\<close>) are written out as numpy computes them, with the \<open>ValueError\<close> it
    raises for a bin count below 1, for arrays of different lengths and for \<open>min\<close> or
    \<open>max\<close> of an empty array.
  \<^item> Output on the terminal (\<open>print\<close>) is not modelled.
\<close>

subsection \<open>Data\<close>

datatype error =
    RuntimeError string
  | ValueError
  | OverflowError

text \<open>The dictionary \<open>poses\<close>: four keys, each \<open>None\<close> until its first message.\<close>

record pose =
  easting :: "real option"
  northing :: "real option"
  heading :: "real option"
  depth :: "real option"

text \<open>One entry of the raveled \<open>x_table\<close>, \<open>y_table\<close> and \<open>cart_image\<close>.\<close>

record pixel =
  x_local :: real
  y_local :: real
  intensity :: real

type_synonym cart = "pixel list"

text \<open>A message of the bag, by topic.\<close>

datatype event =
    GlobalPosition real real  \<comment> \<open>\<open>/bluerov2/mavros/global_position/global\<close>: easting, northing\<close>
  | CompassHdg real           \<comment> \<open>\<open>/bluerov2/mavros/global_position/compass_hdg\<close>\<close>
  | RelAlt real               \<comment> \<open>\<open>/bluerov2/mavros/global_position/rel_alt\<close>\<close>
  | OculusRaw "cart option"   \<comment> \<open>\<open>/oculus/raw_data\<close>\<close>
  | OtherTopic

text \<open>The namespace that \<open>parse_args\<close> returns.\<close>

record args =
  bag :: string
  resolution :: real
  output_path :: string  \<comment> \<open>\<open>args.output\<close>\<close>
  max_frames :: "int option"
  skip_frames :: int

text \<open>The command line: \<open>--bag\<close> is required, every other option may be absent.\<close>

record cmdline =
  opt_bag :: string
  opt_resolution :: "real option"
  opt_output :: "string option"
  opt_max_frames :: "int option"
  opt_skip_frames :: "int option"

definition parse_args :: "cmdline \<Rightarrow> args" where
  "parse_args c =
     \<lparr> bag = opt_bag c,
       resolution = (case opt_resolution c of None \<Rightarrow> 0.5 | Some r \<Rightarrow> r),
       output_path = (case opt_output c of None \<Rightarrow> ''seabed_map.png'' | Some p \<Rightarrow> p),
       max_frames = opt_max_frames c,
       skip_frames = (case opt_skip_frames c of None \<Rightarrow> 1 | Some n \<Rightarrow> n) \<rparr>"

text \<open>The variables of \<open>main\<close> that the reading loop changes.\<close>

record state =
  poses :: pose
  all_xw :: "real list list"
  all_yw :: "real list list"
  all_int :: "real list list"
  total_raw_frames :: int
  processed_frames :: int

definition init_state :: state where
  "init_state =
     \<lparr> poses = \<lparr> easting = None, northing = None, heading = None, depth = None \<rparr>,
       all_xw = [], all_yw = [], all_int = [],
       total_raw_frames = 0, processed_frames = 0 \<rparr>"

subsection \<open>The reading loop\<close>

text \<open>\<open>None in poses.values()\<close>\<close>

definition pose_incomplete :: "pose \<Rightarrow> bool" where
  "pose_incomplete p \<longleftrightarrow>
     easting p = None \<or> northing p = None \<or> heading p = None \<or> depth p = None"

definition deg2rad :: "real \<Rightarrow> real" where
  "deg2rad d = d * (pi / 180)"

text \<open>Lines 114 to 116: rotate by the heading, translate to UTM.\<close>

definition world_X :: "pose \<Rightarrow> cart \<Rightarrow> real list" where
  "world_X p c =
     (let \<theta> = deg2rad (the (heading p))
      in map (\<lambda>px. x_local px * cos \<theta> - y_local px * sin \<theta> + the (easting p)) c)"

definition world_Y :: "pose \<Rightarrow> cart \<Rightarrow> real list" where
  "world_Y p c =
     (let \<theta> = deg2rad (the (heading p))
      in map (\<lambda>px. x_local px * sin \<theta> + y_local px * cos \<theta> + the (northing p)) c)"

text \<open>
  One pass of the body of \<open>for connection, timestamp, raw in reader.messages()\<close>:
  the state after it, and whether the pass ended in \<open>break\<close>.
\<close>

datatype flow = Continue state | Break state

fun loop_body :: "args \<Rightarrow> state \<Rightarrow> event \<Rightarrow> flow" where
  "loop_body a s (GlobalPosition e n) =
     Continue (s\<lparr>poses := (poses s)\<lparr>easting := Some e, northing := Some n\<rparr>\<rparr>)"
| "loop_body a s (CompassHdg h) =
     Continue (s\<lparr>poses := (poses s)\<lparr>heading := Some h\<rparr>\<rparr>)"
| "loop_body a s (RelAlt d) =
     Continue (s\<lparr>poses := (poses s)\<lparr>depth := Some d\<rparr>\<rparr>)"
| "loop_body a s (OculusRaw frame) =
     (if pose_incomplete (poses s) then Continue s
      else
        let s1 = s\<lparr>total_raw_frames := total_raw_frames s + 1\<rparr> in
        if skip_frames a > 1 \<and> total_raw_frames s1 mod skip_frames a \<noteq> 0 then Continue s1
        else
          let s2 = s1\<lparr>processed_frames := processed_frames s1 + 1\<rparr> in
          if (case max_frames a of None \<Rightarrow> False | Some m \<Rightarrow> processed_frames s2 > m)
          then Break s2
          else
            (case frame of
               None \<Rightarrow> Continue s2
             | Some c \<Rightarrow>
                 Continue (s2\<lparr>all_xw := all_xw s2 @ [world_X (poses s2) c],
                               all_yw := all_yw s2 @ [world_Y (poses s2) c],
                               all_int := all_int s2 @ [map intensity c]\<rparr>)))"
| "loop_body a s OtherTopic = Continue s"

fun read_bag :: "args \<Rightarrow> state \<Rightarrow> event list \<Rightarrow> state" where
  "read_bag a s [] = s"
| "read_bag a s (ev # evs) =
     (case loop_body a s ev of
        Break s' \<Rightarrow> s'
      | Continue s' \<Rightarrow> read_bag a s' evs)"

subsection \<open>The map: \<open>numpy.histogram2d\<close> and the normalisation\<close>

text \<open>
  \<open>int(np.ceil(extent / resolution))\<close>. A float division by zero gives an infinity
  (or a NaN for \<open>0 / 0\<close>), which \<open>int\<close> refuses.
\<close>

definition grid_dim :: "real \<Rightarrow> real \<Rightarrow> error + int" where
  "grid_dim ext res =
     (if res = 0 then (if ext = 0 then Inl ValueError else Inl OverflowError)
      else Inr \<lceil>ext / res\<rceil>)"

text \<open>numpy's \<open>_get_outer_edges\<close> for an explicit range.\<close>

definition get_outer_edges :: "real \<times> real \<Rightarrow> error + real \<times> real" where
  "get_outer_edges r =
     (case r of (first_edge, last_edge) \<Rightarrow>
        if first_edge > last_edge then Inl ValueError
        else if first_edge = last_edge then Inr (first_edge - 0.5, last_edge + 0.5)
        else Inr (first_edge, last_edge))"

text \<open>\<open>np.linspace(start, stop, num)\<close> for \<open>num \<ge> 2\<close>.\<close>

definition linspace :: "real \<Rightarrow> real \<Rightarrow> nat \<Rightarrow> real list" where
  "linspace start stop num =
     map (\<lambda>k. start + real k * ((stop - start) / real (num - 1))) [0..<num]"

text \<open>The edges of one dimension of \<open>histogramdd\<close>, for an integer bin count.\<close>

definition bin_edges :: "int \<Rightarrow> real \<times> real \<Rightarrow> error + real list" where
  "bin_edges bins r =
     (if bins < 1 then Inl ValueError
      else case get_outer_edges r of
             Inl e \<Rightarrow> Inl e
           | Inr (smin, smax) \<Rightarrow> Inr (linspace smin smax (nat bins + 1)))"

text \<open>\<open>np.searchsorted(edges, v, side='right')\<close> on increasing edges.\<close>

definition searchsorted_right :: "real list \<Rightarrow> real \<Rightarrow> nat" where
  "searchsorted_right edges v = length (filter (\<lambda>e. e \<le> v) edges)"

text \<open>
  The bin number of \<open>histogramdd\<close>: a value on the rightmost edge is moved one bin to the
  left. Numbers \<open>1 .. len(edges) - 1\<close> are the bins, \<open>0\<close> and \<open>len(edges)\<close> the outliers.
\<close>

definition Ncount :: "real list \<Rightarrow> real \<Rightarrow> nat" where
  "Ncount edges v =
     (if v = last edges then searchsorted_right edges v - 1 else searchsorted_right edges v)"

text \<open>A sample \<open>((x, y), weight)\<close> has the bin numbers of cell \<open>(i, j)\<close> of the matrix.\<close>

definition in_cell :: "real list \<Rightarrow> real list \<Rightarrow> nat \<Rightarrow> nat \<Rightarrow> (real \<times> real) \<times> real \<Rightarrow> bool" where
  "in_cell xedges yedges i j smp \<longleftrightarrow>
     Ncount xedges (fst (fst smp)) = i + 1 \<and> Ncount yedges (snd (fst smp)) = j + 1"

text \<open>
  \<open>bincount\<close> on the raveled bin numbers, reshaped, without the outlier rows and
  columns: entry \<open>(i, j)\<close> is the sum of the weights of the samples of bin \<open>(i, j)\<close>.
\<close>

definition bincount :: "real list \<Rightarrow> real list \<Rightarrow> ((real \<times> real) \<times> real) list \<Rightarrow> real list list" where
  "bincount xedges yedges sample =
     map (\<lambda>i. map (\<lambda>j. sum_list (map snd (filter (in_cell xedges yedges i j) sample)))
                [0..<length yedges - 1])
         [0..<length xedges - 1]"

text \<open>
  \<open>np.histogram2d(x, y, bins=[nx, ny], range=[[..], [..]], weights=w)\<close>: the matrix of
  weight sums and the two edge arrays. Without weights every sample weighs 1.
\<close>

definition histogram2d ::
  "real list \<Rightarrow> real list \<Rightarrow> int \<times> int \<Rightarrow> (real \<times> real) \<times> (real \<times> real) \<Rightarrow> real list option
     \<Rightarrow> error + (real list list \<times> real list \<times> real list)" where
  "histogram2d x y bins rng weights =
     (if length x \<noteq> length y then Inl ValueError
      else case bin_edges (fst bins) (fst rng) of
        Inl e \<Rightarrow> Inl e
      | Inr xedges \<Rightarrow>
         (case bin_edges (snd bins) (snd rng) of
            Inl e \<Rightarrow> Inl e
          | Inr yedges \<Rightarrow>
              let w = (case weights of None \<Rightarrow> replicate (length x) 1 | Some ws \<Rightarrow> ws) in
              if length w \<noteq> length x then Inl ValueError
              else
                Inr (bincount xedges yedges (zip (zip x y) w), xedges, yedges)))"

text \<open>The variables of \<open>main\<close> after step 4.\<close>

record raster =
  heatmap :: "real list list"
  counts :: "real list list"
  xedges :: "real list"
  yedges :: "real list"
  nx :: int
  ny :: int
  xmin :: real
  xmax :: real
  ymin :: real
  ymax :: real

text \<open>\<open>mask = counts > 0; heatmap[mask] /= counts[mask]\<close>\<close>

definition normalise :: "real list list \<Rightarrow> real list list \<Rightarrow> real list list" where
  "normalise hm cnt = map2 (map2 (\<lambda>h c. if c > 0 then h / c else h)) hm cnt"

text \<open>
  Lines 133 to 153, on the concatenated samples. \<open>min\<close> and \<open>max\<close> of an empty array
  raise \<open>ValueError\<close>.
\<close>

definition build_map :: "real \<Rightarrow> real list \<Rightarrow> real list \<Rightarrow> real list \<Rightarrow> error + raster" where
  "build_map res xw yw inten =
     (if xw = [] \<or> yw = [] then Inl ValueError
      else
        let x0 = Min (set xw); x1 = Max (set xw);
            y0 = Min (set yw); y1 = Max (set yw)
        in case grid_dim (x1 - x0) res of
          Inl e \<Rightarrow> Inl e
        | Inr n \<Rightarrow>
           (case grid_dim (y1 - y0) res of
              Inl e \<Rightarrow> Inl e
            | Inr m \<Rightarrow>
               (case histogram2d xw yw (n, m) ((x0, x1), (y0, y1)) (Some inten) of
                  Inl e \<Rightarrow> Inl e
                | Inr (hm, xe, ye) \<Rightarrow>
                   (case histogram2d xw yw (n, m) ((x0, x1), (y0, y1)) None of
                      Inl e \<Rightarrow> Inl e
                    | Inr (cnt, _, _) \<Rightarrow>
                        Inr \<lparr> heatmap = normalise hm cnt, counts = cnt,
                              xedges = xe, yedges = ye, nx = n, ny = m,
                              xmin = x0, xmax = x1, ymin = y0, ymax = y1 \<rparr>))))"

text \<open>
  What \<open>imshow\<close> is given and \<open>savefig\<close> writes: the transposed heat map and the
  extent \<open>[xmin, xmax, ymin, ymax]\<close>. The counts are not part of it.
\<close>

record figure =
  image :: "real list list"
  extent :: "real \<times> real \<times> real \<times> real"
  path :: string

definition savefig :: "args \<Rightarrow> raster \<Rightarrow> figure" where
  "savefig a r =
     \<lparr> image = transpose (heatmap r),
       extent = (xmin r, xmax r, ymin r, ymax r),
       path = output_path a \<rparr>"

definition no_sonar_data :: string where
  "no_sonar_data =
     ''No sonar data collected '' @ [CHR 0xE2, CHR 0x80, CHR 0x93] @ '' check topics & typestore''"

text \<open>
  \<open>main\<close> after \<open>parse_args\<close>: the bag's messages in, the saved figure or the
  exception out.
\<close>

definition run :: "args \<Rightarrow> event list \<Rightarrow> error + figure" where
  "run a evs =
     (let s = read_bag a init_state evs in
      if all_xw s = [] then Inl (RuntimeError no_sonar_data)
      else
        case build_map (resolution a) (concat (all_xw s)) (concat (all_yw s)) (concat (all_int s)) of
          Inl e \<Rightarrow> Inl e
        | Inr r \<Rightarrow> Inr (savefig a r))"

definition main :: "cmdline \<Rightarrow> event list \<Rightarrow> error + figure" where
  "main c evs = run (parse_args c) evs"

subsection \<open>The samples of a cell\<close>

text \<open>The samples that \<open>histogram2d\<close> puts into bin \<open>(i, j)\<close>.\<close>

definition cell_samples ::
  "real list \<Rightarrow> real list \<Rightarrow> nat \<Rightarrow> nat \<Rightarrow> real list \<Rightarrow> real list \<Rightarrow> real list
     \<Rightarrow> ((real \<times> real) \<times> real) list" where
  "cell_samples xe ye i j xw yw inten = filter (in_cell xe ye i j) (zip (zip xw yw) inten)"

subsection \<open>The frame selection, described on the stream\<close>

text \<open>
  The eligible raw frames of a stream: the sonar messages that arrive while the pose is
  complete, each with the pose at that moment (the latest value of every field), in
  stream order. The argument is the pose before the first message.
\<close>

fun eligible :: "pose \<Rightarrow> event list \<Rightarrow> (pose \<times> cart option) list" where
  "eligible p [] = []"
| "eligible p (GlobalPosition e n # evs) =
     eligible (p\<lparr>easting := Some e, northing := Some n\<rparr>) evs"
| "eligible p (CompassHdg h # evs) = eligible (p\<lparr>heading := Some h\<rparr>) evs"
| "eligible p (RelAlt d # evs) = eligible (p\<lparr>depth := Some d\<rparr>) evs"
| "eligible p (OculusRaw f # evs) =
     (if pose_incomplete p then [] else [(p, f)]) @ eligible p evs"
| "eligible p (OtherTopic # evs) = eligible p evs"

text \<open>Every \<open>N\<close>th element of a list: the elements number \<open>N, 2N, 3N, ...\<close>, counted from 1.\<close>

definition every_nth :: "int \<Rightarrow> 'a list \<Rightarrow> 'a list" where
  "every_nth N xs = nths xs {i. (int i + 1) mod N = 0}"

text \<open>
  The elements that pass the stride test of the loop when \<open>k\<close> frames were counted
  before the list began.
\<close>

definition strided :: "int \<Rightarrow> int \<Rightarrow> 'a list \<Rightarrow> 'a list" where
  "strided N k xs = nths xs {i. \<not> (N > 1 \<and> (k + int i + 1) mod N \<noteq> 0)}"

text \<open>The frames that the cap lets through when \<open>p\<close> frames were counted before.\<close>

definition capped :: "int option \<Rightarrow> int \<Rightarrow> 'a list \<Rightarrow> 'a list" where
  "capped cap p xs = (case cap of None \<Rightarrow> xs | Some m \<Rightarrow> take (nat (m - p)) xs)"

text \<open>The frames on which the decoder did not return \<open>None\<close>.\<close>

definition decoded :: "(pose \<times> cart option) list \<Rightarrow> (pose \<times> cart) list" where
  "decoded fs = List.map_filter (\<lambda>(p, f). map_option (Pair p) f) fs"

text \<open>
  The accepted frames of a stream read from state \<open>s\<close>: eligible, passing the stride
  test, within the cap. The processed frames are the accepted frames that decode.
\<close>

definition accepted :: "args \<Rightarrow> state \<Rightarrow> event list \<Rightarrow> (pose \<times> cart option) list" where
  "accepted a s evs =
     capped (max_frames a) (processed_frames s)
       (strided (skip_frames a) (total_raw_frames s) (eligible (poses s) evs))"

definition processed :: "args \<Rightarrow> state \<Rightarrow> event list \<Rightarrow> (pose \<times> cart) list" where
  "processed a s evs = decoded (accepted a s evs)"

subsection \<open>Concrete inputs\<close>

text \<open>
  A pixel, the three navigation messages that complete the pose, a configuration and a
  command line.
\<close>

definition px :: "real \<Rightarrow> real \<Rightarrow> real \<Rightarrow> pixel" where
  "px x y v = \<lparr>x_local = x, y_local = y, intensity = v\<rparr>"

definition nav :: "real \<Rightarrow> real \<Rightarrow> real \<Rightarrow> event list" where
  "nav e n h = [GlobalPosition e n, CompassHdg h, RelAlt 5]"

definition cfg :: "real \<Rightarrow> int \<Rightarrow> int option \<Rightarrow> args" where
  "cfg res N cap =
     \<lparr>bag = ''dive.bag'', resolution = res, output_path = ''seabed_map.png'',
      max_frames = cap, skip_frames = N\<rparr>"

definition cli :: "real option \<Rightarrow> int option \<Rightarrow> int option \<Rightarrow> cmdline" where
  "cli res cap N =
     \<lparr>opt_bag = ''dive.bag'', opt_resolution = res, opt_output = None,
      opt_max_frames = cap, opt_skip_frames = N\<rparr>"

section \<open>Properties of the reading loop\<close>

lemma strided_Nil: "strided N k [] = []"
  by (simp add: strided_def)

lemma strided_Cons:
  "strided N k (x # xs) =
     (if N > 1 \<and> (k + 1) mod N \<noteq> 0 then [] else [x]) @ strided N (k + 1) xs"
  by (auto simp add: strided_def nths_Cons add.assoc add.commute add.left_commute
        intro!: arg_cong2[where f=nths])

lemma capped_Nil: "capped cap p [] = []"
  by (simp add: capped_def split: option.splits)

lemma capped_Cons:
  "capped cap p (x # xs) =
     (if (case cap of None \<Rightarrow> False | Some m \<Rightarrow> p + 1 > m) then []
      else x # capped cap (p + 1) xs)"
proof (cases cap)
  case None
  then show ?thesis by (simp add: capped_def)
next
  case (Some m)
  show ?thesis
  proof (cases "p + 1 > m")
    case True
    then show ?thesis by (simp add: capped_def Some)
  next
    case False
    then have "nat (m - p) = Suc (nat (m - (p + 1)))" by simp
    with False show ?thesis by (simp add: capped_def Some)
  qed
qed

lemma decoded_simps:
  "decoded [] = []"
  "decoded ((p, None) # fs) = decoded fs"
  "decoded ((p, Some c) # fs) = (p, c) # decoded fs"
  by (simp_all add: decoded_def List.map_filter_simps)

text \<open>
  What the loop appends: one batch for every accepted frame that decodes, made with the
  pose of that moment.
\<close>

lemma read_bag_samples:
  "all_xw (read_bag a s evs) = all_xw s @ map (\<lambda>(p, c). world_X p c) (processed a s evs) \<and>
   all_yw (read_bag a s evs) = all_yw s @ map (\<lambda>(p, c). world_Y p c) (processed a s evs) \<and>
   all_int (read_bag a s evs) = all_int s @ map (\<lambda>(p, c). map intensity c) (processed a s evs)"
proof (induction evs arbitrary: s)
  case Nil
  show ?case
    by (simp add: processed_def accepted_def strided_Nil capped_Nil decoded_simps)
next
  case (Cons ev evs)
  show ?case
  proof (cases ev)
    case (OculusRaw f)
    show ?thesis
      using Cons.IH
      by (cases f)
        (auto simp add: OculusRaw processed_def accepted_def strided_Cons capped_Cons
           decoded_simps Let_def split: option.splits)
  qed (use Cons.IH in \<open>simp_all add: processed_def accepted_def\<close>)
qed

text \<open>The three accumulated arrays have one length.\<close>

lemma length_concat_map:
  "(\<And>x. x \<in> set xs \<Longrightarrow> length (f x) = length (g x)) \<Longrightarrow>
   length (concat (map f xs)) = length (concat (map g xs))"
  by (induction xs) simp_all

lemma accumulated_lengths:
  "length (concat (all_yw (read_bag a init_state evs))) =
     length (concat (all_xw (read_bag a init_state evs))) \<and>
   length (concat (all_int (read_bag a init_state evs))) =
     length (concat (all_xw (read_bag a init_state evs)))"
proof -
  have "length (concat (map (\<lambda>(p, c). world_Y p c) (processed a init_state evs))) =
        length (concat (map (\<lambda>(p, c). world_X p c) (processed a init_state evs)))"
    by (rule length_concat_map) (auto simp add: world_X_def world_Y_def Let_def)
  moreover have "length (concat (map (\<lambda>(p, c). map intensity c) (processed a init_state evs))) =
        length (concat (map (\<lambda>(p, c). world_X p c) (processed a init_state evs)))"
    by (rule length_concat_map) (auto simp add: world_X_def Let_def)
  ultimately show ?thesis
    using read_bag_samples[of a init_state evs] by (simp add: init_state_def)
qed

lemma eligible_complete:
  "(p, f) \<in> set (eligible p0 evs) \<Longrightarrow> \<not> pose_incomplete p"
  by (induction p0 evs rule: eligible.induct) (auto split: if_splits)

lemma decoded_iff: "(p, c) \<in> set (decoded fs) \<longleftrightarrow> (p, Some c) \<in> set fs"
  by (induction fs) (auto simp add: decoded_def List.map_filter_simps split: option.splits)

lemma accepted_subset: "set (accepted a s evs) \<subseteq> set (eligible (poses s) evs)"
proof -
  have "set (accepted a s evs) \<subseteq> set (strided (skip_frames a) (total_raw_frames s) (eligible (poses s) evs))"
    by (auto simp add: accepted_def capped_def split: option.splits dest: in_set_takeD)
  also have "\<dots> \<subseteq> set (eligible (poses s) evs)"
    by (simp add: strided_def set_nths_subset)
  finally show ?thesis .
qed

lemma processed_complete:
  "(p, c) \<in> set (processed a s evs) \<Longrightarrow> \<not> pose_incomplete p"
  using accepted_subset[of a s evs] by (auto simp add: processed_def decoded_iff dest: eligible_complete)

lemma read_bag_counters:
  "max_frames a = None \<Longrightarrow>
   total_raw_frames (read_bag a s evs) = total_raw_frames s + int (length (eligible (poses s) evs)) \<and>
   processed_frames (read_bag a s evs) =
     processed_frames s + int (length (strided (skip_frames a) (total_raw_frames s) (eligible (poses s) evs)))"
proof (induction evs arbitrary: s)
  case Nil
  show ?case by (simp add: strided_Nil)
next
  case (Cons ev evs)
  show ?case
  proof (cases ev)
    case (OculusRaw f)
    show ?thesis
      using Cons.IH[OF Cons.prems] Cons.prems
      by (cases f) (auto simp add: OculusRaw strided_Cons strided_Nil Let_def)
  qed (use Cons.IH[OF Cons.prems] in \<open>simp_all\<close>)
qed

lemma strided_every_nth: "N \<ge> 1 \<Longrightarrow> strided N 0 xs = every_nth N xs"
  unfolding strided_def every_nth_def
  by (rule arg_cong2[where f=nths]) (auto simp add: order_le_less)

lemma every_nth_1: "every_nth 1 xs = xs"
  by (simp add: every_nth_def nths_all)

lemma every_nth_large: "int (length xs) < N \<Longrightarrow> every_nth N xs = []"
  unfolding every_nth_def nths_def
  by (auto simp add: filter_empty_conv set_zip dest!: zdvd_imp_le)

lemma every_nth_snoc:
  "every_nth N (xs @ [x]) = every_nth N xs @ (if (int (length xs) + 1) mod N = 0 then [x] else [])"
  by (simp add: every_nth_def nths_append nths_Cons)

lemma div_step:
  fixes a N :: int
  assumes "0 \<le> a" "1 \<le> N"
  shows "(a + 1) div N = a div N + (if (a + 1) mod N = 0 then 1 else 0)"
proof (cases "N = 1")
  case True
  then show ?thesis by simp
next
  case False
  with assms have N: "1 < N" by simp
  have r: "0 \<le> a mod N" "a mod N < N" using N by simp_all
  have e: "a + 1 = (a mod N + 1) + N * (a div N)" by simp
  show ?thesis
  proof (cases "a mod N + 1 = N")
    case True
    have "(a + 1) div N = ((a mod N + 1) + N * (a div N)) div N" by (simp only: e[symmetric])
    also have "\<dots> = (N + N * (a div N)) div N" by (simp only: True)
    also have "\<dots> = 1 + a div N" using N by simp
    finally have d: "(a + 1) div N = 1 + a div N" .
    have "(a + 1) mod N = ((a mod N + 1) + N * (a div N)) mod N" by (simp only: e[symmetric])
    also have "\<dots> = (N + N * (a div N)) mod N" by (simp only: True)
    also have "\<dots> = 0" by simp
    finally have m: "(a + 1) mod N = 0" .
    show ?thesis by (simp only: d m if_True) simp
  next
    case False
    with r have lt: "a mod N + 1 < N" by simp
    have p: "0 \<le> a mod N + 1" using r by simp
    have "(a + 1) div N = ((a mod N + 1) + N * (a div N)) div N" by (simp only: e[symmetric])
    also have "\<dots> = a div N + (a mod N + 1) div N"
      using N by (intro div_mult_self2) simp
    also have "(a mod N + 1) div N = 0" using p lt by (rule div_pos_pos_trivial)
    finally have d: "(a + 1) div N = a div N" by simp
    have "(a + 1) mod N = ((a mod N + 1) + N * (a div N)) mod N" by (simp only: e[symmetric])
    also have "\<dots> = (a mod N + 1) mod N" by (rule mod_mult_self2)
    also have "\<dots> = a mod N + 1" using p lt by (rule mod_pos_pos_trivial)
    finally have m: "(a + 1) mod N \<noteq> 0" using r by simp
    show ?thesis using d m by simp
  qed
qed

lemma length_every_nth: "N \<ge> 1 \<Longrightarrow> int (length (every_nth N xs)) = int (length xs) div N"
proof (induction xs rule: rev_induct)
  case Nil
  then show ?case by (simp add: every_nth_def)
next
  case (snoc x xs)
  have "int (length (every_nth N (xs @ [x]))) =
          int (length (every_nth N xs)) + (if (int (length xs) + 1) mod N = 0 then 1 else 0)"
    by (simp add: every_nth_snoc)
  also have "\<dots> = int (length xs) div N + (if (int (length xs) + 1) mod N = 0 then 1 else 0)"
    using snoc by simp
  also have "\<dots> = (int (length xs) + 1) div N"
    using div_step[of "int (length xs)" N] snoc.prems by simp
  also have "int (length xs) + 1 = int (length (xs @ [x]))" by simp
  finally show ?case .
qed

lemmas map_simps =
  build_map_def grid_dim_def histogram2d_def bin_edges_def get_outer_edges_def bincount_def
  linspace_def Ncount_def searchsorted_right_def in_cell_def normalise_def Let_def

lemmas eval_simps =
  px_def nav_def cfg_def init_state_def pose_incomplete_def deg2rad_def world_X_def world_Y_def
  processed_def accepted_def strided_Cons strided_Nil capped_def decoded_simps Let_def

subsection \<open>The transform of a frame\<close>

text \<open>
  Claim C1. The loop appends one batch for every processed frame (an accepted frame that
  decodes). The pose used for it is complete, and with easting \<open>e\<close>, northing \<open>n\<close> and
  heading \<open>h\<close> degrees, every pixel \<open>(x, y, v)\<close> of the frame gives the sample
  \<open>(x cos \<theta> - y sin \<theta> + e, x sin \<theta> + y cos \<theta> + n, v)\<close> with
  \<open>\<theta> = h \<pi> / 180\<close>. For \<open>h = 0\<close> this is \<open>(x + e, y + n, v)\<close>.
\<close>

theorem frame_transform:
  "all_xw (read_bag a s evs) = all_xw s @ map (\<lambda>(p, c). world_X p c) (processed a s evs) \<and>
   all_yw (read_bag a s evs) = all_yw s @ map (\<lambda>(p, c). world_Y p c) (processed a s evs) \<and>
   all_int (read_bag a s evs) = all_int s @ map (\<lambda>(p, c). map intensity c) (processed a s evs) \<and>
   (\<forall>(p, c) \<in> set (processed a s evs). \<exists>e n h d.
      p = \<lparr>easting = Some e, northing = Some n, heading = Some h, depth = Some d\<rparr> \<and>
      world_X p c =
        map (\<lambda>px. x_local px * cos (h * pi / 180) - y_local px * sin (h * pi / 180) + e) c \<and>
      world_Y p c =
        map (\<lambda>px. x_local px * sin (h * pi / 180) + y_local px * cos (h * pi / 180) + n) c \<and>
      (h = 0 \<longrightarrow> world_X p c = map (\<lambda>px. x_local px + e) c \<and>
                 world_Y p c = map (\<lambda>px. y_local px + n) c))"
proof -
  have "\<exists>e n h d.
      p = \<lparr>easting = Some e, northing = Some n, heading = Some h, depth = Some d\<rparr> \<and>
      world_X p c =
        map (\<lambda>px. x_local px * cos (h * pi / 180) - y_local px * sin (h * pi / 180) + e) c \<and>
      world_Y p c =
        map (\<lambda>px. x_local px * sin (h * pi / 180) + y_local px * cos (h * pi / 180) + n) c \<and>
      (h = 0 \<longrightarrow> world_X p c = map (\<lambda>px. x_local px + e) c \<and>
                 world_Y p c = map (\<lambda>px. y_local px + n) c)"
    if "(p, c) \<in> set (processed a s evs)" for p c
  proof -
    from that have "\<not> pose_incomplete p" by (rule processed_complete)
    then obtain e n h d where
      "easting p = Some e" "northing p = Some n" "heading p = Some h" "depth p = Some d"
      by (auto simp add: pose_incomplete_def)
    then have p: "p = \<lparr>easting = Some e, northing = Some n, heading = Some h, depth = Some d\<rparr>"
      by (cases p) simp
    show ?thesis
      apply (rule exI[of _ e], rule exI[of _ n], rule exI[of _ h], rule exI[of _ d])
      apply (simp add: p world_X_def world_Y_def deg2rad_def Let_def)
      done
  qed
  then show ?thesis
    using read_bag_samples[of a s evs] by blast
qed

text \<open>
  A frame of one pixel \<open>(1, 2)\<close> under the pose \<open>(100, 200)\<close>, with heading \<open>0\<close>
  and with heading \<open>90\<close>.
\<close>

theorem frame_transform_witness:
  "(\<lparr>easting = Some 100, northing = Some 200, heading = Some 0, depth = Some 5\<rparr>, [px 1 2 7])
     \<in> set (processed (cfg 1 1 None) init_state (nav 100 200 0 @ [OculusRaw (Some [px 1 2 7])])) \<and>
   all_xw (read_bag (cfg 1 1 None) init_state (nav 100 200 0 @ [OculusRaw (Some [px 1 2 7])])) = [[101]] \<and>
   all_yw (read_bag (cfg 1 1 None) init_state (nav 100 200 0 @ [OculusRaw (Some [px 1 2 7])])) = [[202]] \<and>
   all_int (read_bag (cfg 1 1 None) init_state (nav 100 200 0 @ [OculusRaw (Some [px 1 2 7])])) = [[7]] \<and>
   all_xw (read_bag (cfg 1 1 None) init_state (nav 100 200 90 @ [OculusRaw (Some [px 1 2 7])])) = [[98]] \<and>
   all_yw (read_bag (cfg 1 1 None) init_state (nav 100 200 90 @ [OculusRaw (Some [px 1 2 7])])) = [[201]]"
  using frame_transform[of "cfg 1 1 None" init_state "nav 100 200 0 @ [OculusRaw (Some [px 1 2 7])]"]
  by (simp add: eval_simps)


subsection \<open>The stride\<close>

text \<open>
  Claim C5. With a stride \<open>N \<ge> 1\<close> the accepted frames are exactly every \<open>N\<close>th
  eligible frame, counted over all sonar messages that arrived under a complete pose; the
  cap, if any, then keeps a prefix of them, and the decodable ones give the samples.
  Without a cap the counter of processed frames ends at the number of eligible frames
  divided by \<open>N\<close>. With \<open>N = 1\<close> every eligible frame is accepted. With \<open>N\<close> larger
  than the number of eligible frames no frame is accepted: the edge convention of the
  script is zero.
\<close>

theorem stride_every_nth:
  assumes "skip_frames a = N" and "1 \<le> N"
  shows
  "processed a init_state evs =
     decoded (capped (max_frames a) 0 (every_nth N (eligible (poses init_state) evs))) \<and>
   all_xw (read_bag a init_state evs) = map (\<lambda>(p, c). world_X p c) (processed a init_state evs) \<and>
   all_yw (read_bag a init_state evs) = map (\<lambda>(p, c). world_Y p c) (processed a init_state evs) \<and>
   all_int (read_bag a init_state evs) = map (\<lambda>(p, c). map intensity c) (processed a init_state evs) \<and>
   (max_frames a = None \<longrightarrow>
      total_raw_frames (read_bag a init_state evs) = int (length (eligible (poses init_state) evs)) \<and>
      processed_frames (read_bag a init_state evs) =
        int (length (every_nth N (eligible (poses init_state) evs))) \<and>
      processed_frames (read_bag a init_state evs) = total_raw_frames (read_bag a init_state evs) div N) \<and>
   (N = 1 \<longrightarrow> every_nth N (eligible (poses init_state) evs) = eligible (poses init_state) evs) \<and>
   (int (length (eligible (poses init_state) evs)) < N \<longrightarrow>
      every_nth N (eligible (poses init_state) evs) = [] \<and>
      all_xw (read_bag a init_state evs) = [])"
proof -
  let ?el = "eligible (poses init_state) evs"
  have z: "total_raw_frames init_state = 0" "processed_frames init_state = 0"
    "all_xw init_state = []" "all_yw init_state = []" "all_int init_state = []"
    by (simp_all add: init_state_def)
  have st: "strided (skip_frames a) 0 ?el = every_nth N ?el"
    using assms by (simp add: strided_every_nth)
  have pr: "processed a init_state evs = decoded (capped (max_frames a) 0 (every_nth N ?el))"
    by (simp add: processed_def accepted_def z st)
  have smp:
    "all_xw (read_bag a init_state evs) = map (\<lambda>(p, c). world_X p c) (processed a init_state evs)"
    "all_yw (read_bag a init_state evs) = map (\<lambda>(p, c). world_Y p c) (processed a init_state evs)"
    "all_int (read_bag a init_state evs) = map (\<lambda>(p, c). map intensity c) (processed a init_state evs)"
    using read_bag_samples[of a init_state evs] by (simp_all add: z)
  have cnt: "total_raw_frames (read_bag a init_state evs) = int (length ?el) \<and>
      processed_frames (read_bag a init_state evs) = int (length (every_nth N ?el)) \<and>
      processed_frames (read_bag a init_state evs) = total_raw_frames (read_bag a init_state evs) div N"
    if "max_frames a = None"
    using read_bag_counters[OF that, of init_state evs] length_every_nth[OF assms(2), of ?el]
    by (simp add: z st)
  have one: "every_nth N ?el = ?el" if "N = 1"
    using that by (simp add: every_nth_1)
  have large: "every_nth N ?el = [] \<and> all_xw (read_bag a init_state evs) = []"
    if "int (length ?el) < N"
    using every_nth_large[OF that] by (simp add: smp pr capped_def decoded_simps split: option.splits)
  show ?thesis
    using pr smp cnt one large by blast
qed

text \<open>Seven eligible frames with stride 3: the third and the sixth. Two frames: none.\<close>

theorem stride_every_nth_witness:
  "skip_frames (cfg 1 3 None) = 3 \<and> (1::int) \<le> 3 \<and>
   all_int (read_bag (cfg 1 3 None) init_state
     (nav 0 0 0 @ map (\<lambda>v. OculusRaw (Some [px 0 0 v])) [1, 2, 3, 4, 5, 6, 7])) = [[3], [6]] \<and>
   processed_frames (read_bag (cfg 1 3 None) init_state
     (nav 0 0 0 @ map (\<lambda>v. OculusRaw (Some [px 0 0 v])) [1, 2, 3, 4, 5, 6, 7])) = 2 \<and>
   all_int (read_bag (cfg 1 3 None) init_state
     (nav 0 0 0 @ map (\<lambda>v. OculusRaw (Some [px 0 0 v])) [1, 2])) = []"
  using stride_every_nth[of "cfg 1 3 None" 3
      "nav 0 0 0 @ map (\<lambda>v. OculusRaw (Some [px 0 0 v])) [1, 2, 3, 4, 5, 6, 7]"]
    stride_every_nth[of "cfg 1 3 None" 3
      "nav 0 0 0 @ map (\<lambda>v. OculusRaw (Some [px 0 0 v])) [1, 2]"]
  by (simp add: eval_simps)


subsection \<open>The cap\<close>

lemma loop_body_Break_iff:
  "loop_body a s ev = Break s' \<longleftrightarrow>
     (\<exists>f. ev = OculusRaw f) \<and> \<not> pose_incomplete (poses s) \<and>
     \<not> (skip_frames a > 1 \<and> (total_raw_frames s + 1) mod skip_frames a \<noteq> 0) \<and>
     (\<exists>m. max_frames a = Some m \<and> processed_frames s + 1 > m) \<and>
     s' = s\<lparr>total_raw_frames := total_raw_frames s + 1, processed_frames := processed_frames s + 1\<rparr>"
  by (cases ev) (auto simp add: Let_def split: option.splits)

text \<open>
  Claim C6. With a cap \<open>m\<close>, a pass of the loop that exceeds the cap ends the loop:
  whatever follows in the stream is not read, and the pass itself adds no sample. This
  happens exactly at a sonar message under a complete pose that passes the stride test
  when the counter of processed frames would exceed \<open>m\<close>. The accepted frames are the
  first \<open>m\<close> that pass the stride test, the samples are those of the accepted frames
  that decode, and there are at most \<open>m\<close> batches.
\<close>

theorem max_frames_stops_stream:
  assumes "max_frames a = Some m"
  shows
  "(loop_body a s ev = Break s' \<longrightarrow>
      read_bag a s (ev # rest) = s' \<and>
      all_xw s' = all_xw s \<and> all_yw s' = all_yw s \<and> all_int s' = all_int s) \<and>
   ((\<exists>s'. loop_body a s ev = Break s') \<longleftrightarrow>
      (\<exists>f. ev = OculusRaw f) \<and> \<not> pose_incomplete (poses s) \<and>
      \<not> (skip_frames a > 1 \<and> (total_raw_frames s + 1) mod skip_frames a \<noteq> 0) \<and>
      processed_frames s + 1 > m) \<and>
   accepted a init_state evs =
     take (nat m) (strided (skip_frames a) 0 (eligible (poses init_state) evs)) \<and>
   all_xw (read_bag a init_state evs) =
     map (\<lambda>(p, c). world_X p c) (decoded (accepted a init_state evs)) \<and>
   all_yw (read_bag a init_state evs) =
     map (\<lambda>(p, c). world_Y p c) (decoded (accepted a init_state evs)) \<and>
   all_int (read_bag a init_state evs) =
     map (\<lambda>(p, c). map intensity c) (decoded (accepted a init_state evs)) \<and>
   int (length (all_xw (read_bag a init_state evs))) \<le> max 0 m"
proof -
  have z: "total_raw_frames init_state = 0" "processed_frames init_state = 0"
    "all_xw init_state = []" "all_yw init_state = []" "all_int init_state = []"
    by (simp_all add: init_state_def)
  have brk: "read_bag a s (ev # rest) = s' \<and>
      all_xw s' = all_xw s \<and> all_yw s' = all_yw s \<and> all_int s' = all_int s"
    if "loop_body a s ev = Break s'"
  proof -
    from that have "s' = s\<lparr>total_raw_frames := total_raw_frames s + 1,
        processed_frames := processed_frames s + 1\<rparr>"
      by (simp add: loop_body_Break_iff)
    then show ?thesis using that by simp
  qed
  have cond: "(\<exists>s'. loop_body a s ev = Break s') \<longleftrightarrow>
      (\<exists>f. ev = OculusRaw f) \<and> \<not> pose_incomplete (poses s) \<and>
      \<not> (skip_frames a > 1 \<and> (total_raw_frames s + 1) mod skip_frames a \<noteq> 0) \<and>
      processed_frames s + 1 > m"
    by (simp add: loop_body_Break_iff assms)
  have acc: "accepted a init_state evs =
      take (nat m) (strided (skip_frames a) 0 (eligible (poses init_state) evs))"
    by (simp add: accepted_def capped_def assms z)
  have smp:
    "all_xw (read_bag a init_state evs) = map (\<lambda>(p, c). world_X p c) (decoded (accepted a init_state evs))"
    "all_yw (read_bag a init_state evs) = map (\<lambda>(p, c). world_Y p c) (decoded (accepted a init_state evs))"
    "all_int (read_bag a init_state evs) = map (\<lambda>(p, c). map intensity c) (decoded (accepted a init_state evs))"
    using read_bag_samples[of a init_state evs] by (simp_all add: z processed_def)
  have "length (decoded (accepted a init_state evs)) \<le> length (accepted a init_state evs)"
    by (simp add: decoded_def map_filter_def)
  also have "\<dots> \<le> nat m" by (simp add: acc)
  finally have len: "int (length (all_xw (read_bag a init_state evs))) \<le> max 0 m"
    by (simp add: smp)
  show ?thesis
    using brk cond acc smp len by blast
qed

text \<open>Cap 2 and four frames: the third frame breaks the loop, two batches remain.\<close>

theorem max_frames_stops_stream_witness:
  "max_frames (cfg 1 1 (Some 2)) = Some 2 \<and>
   loop_body (cfg 1 1 (Some 2))
     (read_bag (cfg 1 1 (Some 2)) init_state
        (nav 0 0 0 @ [OculusRaw (Some [px 0 0 1]), OculusRaw (Some [px 0 0 2])]))
     (OculusRaw (Some [px 0 0 3])) =
   Break (read_bag (cfg 1 1 (Some 2)) init_state
        (nav 0 0 0 @ [OculusRaw (Some [px 0 0 1]), OculusRaw (Some [px 0 0 2])])
        \<lparr>total_raw_frames := 3, processed_frames := 3\<rparr>) \<and>
   all_int (read_bag (cfg 1 1 (Some 2)) init_state
     (nav 0 0 0 @ map (\<lambda>v. OculusRaw (Some [px 0 0 v])) [1, 2, 3, 4])) = [[1], [2]]"
  using max_frames_stops_stream[of "cfg 1 1 (Some 2)" 2 _ _ _ _
      "nav 0 0 0 @ map (\<lambda>v. OculusRaw (Some [px 0 0 v])) [1, 2, 3, 4]"]
  by (simp add: eval_simps)

subsection \<open>A frame that does not decode\<close>

text \<open>
  Claim C7 says that a frame on which the decoder returns \<open>None\<close> leaves the counter
  of processed frames unchanged. The loop counts the frame before it decodes it: with
  cap 1, the counter goes from 0 to 1 on such a frame, and a good frame after it is
  refused by the cap, while the same good frame alone is processed.
\<close>

theorem decode_failure_uses_slot:
  "processed_frames (read_bag (cfg 1 1 (Some 1)) init_state (nav 100 200 0)) = 0 \<and>
   processed_frames (read_bag (cfg 1 1 (Some 1)) init_state (nav 100 200 0 @ [OculusRaw None])) = 1 \<and>
   all_xw (read_bag (cfg 1 1 (Some 1)) init_state
      (nav 100 200 0 @ [OculusRaw None, OculusRaw (Some [px 1 2 7])])) = [] \<and>
   all_xw (read_bag (cfg 1 1 (Some 1)) init_state
      (nav 100 200 0 @ [OculusRaw (Some [px 1 2 7])])) = [[101]]"
  by (simp add: eval_simps)

text \<open>
  Claim C7, amended. An accepted frame on which the decoder returns \<open>None\<close> adds no
  sample and changes nothing but the two counters: it is counted as a raw frame and as
  a processed frame, so it takes one slot of the cap.
\<close>

theorem decode_failure_no_samples_but_counted:
  assumes "\<not> pose_incomplete (poses s)"
    and "\<not> (skip_frames a > 1 \<and> (total_raw_frames s + 1) mod skip_frames a \<noteq> 0)"
    and "case max_frames a of None \<Rightarrow> True | Some m \<Rightarrow> processed_frames s + 1 \<le> m"
  shows "loop_body a s (OculusRaw None) =
           Continue (s\<lparr>total_raw_frames := total_raw_frames s + 1,
                       processed_frames := processed_frames s + 1\<rparr>) \<and>
         read_bag a s (OculusRaw None # evs) =
           read_bag a (s\<lparr>total_raw_frames := total_raw_frames s + 1,
                         processed_frames := processed_frames s + 1\<rparr>) evs"
  using assms by (auto simp add: Let_def split: option.splits)

text \<open>After the navigation messages, with cap 1.\<close>

theorem decode_failure_no_samples_but_counted_witness:
  "\<not> pose_incomplete (poses (read_bag (cfg 1 1 (Some 1)) init_state (nav 100 200 0))) \<and>
   loop_body (cfg 1 1 (Some 1)) (read_bag (cfg 1 1 (Some 1)) init_state (nav 100 200 0)) (OculusRaw None) =
     Continue (read_bag (cfg 1 1 (Some 1)) init_state (nav 100 200 0)
       \<lparr>total_raw_frames := 1, processed_frames := 1\<rparr>)"
  using decode_failure_no_samples_but_counted[of "read_bag (cfg 1 1 (Some 1)) init_state (nav 100 200 0)"
      "cfg 1 1 (Some 1)"]
  by (simp add: eval_simps)

section \<open>Properties of the map\<close>

subsection \<open>Edges and bin numbers\<close>

lemma filter_upt_less:
  "M \<le> N \<Longrightarrow> (\<And>k. k < N \<Longrightarrow> P k \<longleftrightarrow> k < M) \<Longrightarrow> filter P [0..<N] = [0..<M]"
proof (induction N)
  case 0
  then show ?case by simp
next
  case (Suc N)
  show ?case
  proof (cases "M = Suc N")
    case True
    then have "\<And>k. k < Suc N \<Longrightarrow> P k" using Suc.prems(2) by simp
    then have "filter P [0..<Suc N] = [0..<Suc N]" by (simp add: filter_id_conv)
    then show ?thesis using True by simp
  next
    case False
    with Suc.prems have le: "M \<le> N" by simp
    have "filter P [0..<N] = [0..<M]"
      using le Suc.prems(2) by (intro Suc.IH) simp_all
    moreover have "\<not> P N" using Suc.prems(2)[of N] le by simp
    ultimately show ?thesis by simp
  qed
qed

lemma length_linspace: "length (linspace lo hi num) = num"
  by (simp add: linspace_def)

lemma nth_linspace:
  "k \<le> N \<Longrightarrow> linspace lo hi (Suc N) ! k = lo + real k * ((hi - lo) / real N)"
  by (simp add: linspace_def less_Suc_eq_le [symmetric] del: upt_Suc)

lemma last_linspace: "0 < N \<Longrightarrow> last (linspace lo hi (Suc N)) = hi"
  by (simp add: linspace_def)

lemma hd_linspace: "linspace lo hi (Suc N) ! 0 = lo"
  by (simp add: nth_linspace)

lemma searchsorted_linspace:
  assumes "lo < hi" and "0 < N" and "i < N"
    and "lo + real i * ((hi - lo) / real N) \<le> v"
    and "v < lo + real (i + 1) * ((hi - lo) / real N)"
  shows "searchsorted_right (linspace lo hi (Suc N)) v = i + 1"
proof -
  define w where "w = (hi - lo) / real N"
  have w: "0 < w" using assms(1,2) by (simp add: w_def)
  have P: "(lo + real k * w \<le> v) \<longleftrightarrow> k < i + 1" for k
  proof
    assume a: "lo + real k * w \<le> v"
    show "k < i + 1"
    proof (rule ccontr)
      assume "\<not> k < i + 1"
      then have "real (i + 1) \<le> real k" by simp
      then have "real (i + 1) * w \<le> real k * w" using w by (simp only: mult_right_mono less_imp_le)
      with a assms(5) show False by (simp add: w_def)
    qed
  next
    assume "k < i + 1"
    then have "real k \<le> real i" by simp
    then have "real k * w \<le> real i * w" using w by (simp only: mult_right_mono less_imp_le)
    with assms(4) show "lo + real k * w \<le> v" by (simp add: w_def)
  qed
  have "filter (\<lambda>e. e \<le> v) (linspace lo hi (Suc N)) =
        map (\<lambda>k. lo + real k * w) (filter (\<lambda>k. lo + real k * w \<le> v) [0..<Suc N])"
    by (simp add: linspace_def w_def filter_map comp_def del: upt_Suc)
  also have "filter (\<lambda>k. lo + real k * w \<le> v) [0..<Suc N] = [0..<i + 1]"
    using assms(3) by (intro filter_upt_less) (simp_all add: P)
  finally show ?thesis by (simp add: searchsorted_right_def)
qed

lemma searchsorted_linspace_top:
  assumes "lo < hi" and "0 < N"
  shows "searchsorted_right (linspace lo hi (Suc N)) hi = Suc N"
proof -
  define w where "w = (hi - lo) / real N"
  have w: "0 < w" using assms(1,2) by (simp add: w_def)
  have hi: "hi = lo + real N * w" using assms(2) by (simp add: w_def)
  have "lo + real k * w \<le> hi" if "k < Suc N" for k
  proof -
    from that have "real k \<le> real N" by simp
    then have "real k * w \<le> real N * w" using w by (simp only: mult_right_mono less_imp_le)
    then show ?thesis using hi by simp
  qed
  then have "filter (\<lambda>e. e \<le> hi) (linspace lo hi (Suc N)) = linspace lo hi (Suc N)"
    by (simp add: linspace_def w_def filter_id_conv del: upt_Suc)
  then show ?thesis by (simp add: searchsorted_right_def length_linspace)
qed


lemma Ncount_linspace_inner:
  assumes "lo < hi" and "0 < N" and "i < N"
    and "linspace lo hi (Suc N) ! i \<le> v"
    and "v < linspace lo hi (Suc N) ! (i + 1)"
  shows "Ncount (linspace lo hi (Suc N)) v = i + 1"
proof -
  have a: "lo + real i * ((hi - lo) / real N) \<le> v"
    using assms(3,4) by (simp add: nth_linspace)
  have b: "v < lo + real (i + 1) * ((hi - lo) / real N)"
    using assms(3,5) nth_linspace[of "i + 1" N lo hi] by simp
  have "real (i + 1) \<le> real N" using assms(3) by simp
  then have "real (i + 1) * ((hi - lo) / real N) \<le> real N * ((hi - lo) / real N)"
    using assms(1,2) by (intro mult_right_mono) simp_all
  also have "\<dots> = hi - lo" using assms(2) by simp
  finally have "v < hi" using b by simp
  then have "v \<noteq> last (linspace lo hi (Suc N))"
    using assms(2) by (simp add: last_linspace)
  then show ?thesis
    using searchsorted_linspace[OF assms(1,2,3) a b] by (simp add: Ncount_def)
qed

lemma Ncount_linspace_top:
  assumes "lo < hi" and "0 < N"
  shows "Ncount (linspace lo hi (Suc N)) hi = N"
  using searchsorted_linspace_top[OF assms] assms(2)
  by (simp add: Ncount_def last_linspace)

lemma Ncount_linspace_ex:
  assumes "lo < hi" and "0 < N" and "lo \<le> v" and "v \<le> hi"
  shows "\<exists>i<N. Ncount (linspace lo hi (Suc N)) v = i + 1 \<and>
           linspace lo hi (Suc N) ! i \<le> v \<and>
           (v < linspace lo hi (Suc N) ! (i + 1) \<or> (i + 1 = N \<and> v = hi))"
proof (cases "v = hi")
  case True
  have "linspace lo hi (Suc N) ! (N - 1) \<le> hi"
  proof -
    have "real (N - 1) * ((hi - lo) / real N) \<le> real N * ((hi - lo) / real N)"
      using assms(1,2) by (intro mult_right_mono) simp_all
    also have "\<dots> = hi - lo" using assms(2) by simp
    finally show ?thesis by (simp add: nth_linspace)
  qed
  then show ?thesis
    using Ncount_linspace_top[OF assms(1,2)] assms(2) True
    by (intro exI[of _ "N - 1"]) simp
next
  case False
  with assms(4) have lt: "v < hi" by simp
  define w where "w = (hi - lo) / real N"
  have w: "0 < w" using assms(1,2) by (simp add: w_def)
  define t where "t = (v - lo) / w"
  have t0: "0 \<le> t" using assms(3) w by (simp add: t_def)
  have tN: "t < real N"
  proof -
    have "v - lo < hi - lo" using lt by simp
    also have "\<dots> = real N * w" using assms(2) by (simp add: w_def)
    finally show ?thesis using w by (simp add: t_def pos_divide_less_eq)
  qed
  define q where "q = nat \<lfloor>t\<rfloor>"
  have q1: "real q \<le> t" using t0 by (simp add: q_def)
  have q2: "t < real q + 1" using t0 by (simp add: q_def)
  have qN: "q < N" using q1 tN by linarith
  have v: "v = lo + t * w" using w by (simp add: t_def)
  have "real q * w \<le> t * w" using q1 w by (intro mult_right_mono) simp_all
  then have lo_le: "linspace lo hi (Suc N) ! q \<le> v"
    using qN v by (simp add: nth_linspace w_def)
  have "t * w < (real q + 1) * w" using q2 w by (intro mult_strict_right_mono) simp_all
  then have v_lt: "v < linspace lo hi (Suc N) ! (q + 1)"
    using qN v nth_linspace[of "q + 1" N lo hi] by (simp add: w_def add.commute)
  show ?thesis
    using Ncount_linspace_inner[OF assms(1,2) qN lo_le v_lt] qN lo_le v_lt by blast
qed

lemma Ncount_linspace_iff:
  assumes "lo < hi" and "0 < N" and "i < N" and "lo \<le> v" and "v \<le> hi"
  shows "Ncount (linspace lo hi (Suc N)) v = i + 1 \<longleftrightarrow>
           linspace lo hi (Suc N) ! i \<le> v \<and>
           (v < linspace lo hi (Suc N) ! (i + 1) \<or> (i + 1 = N \<and> v = hi))"
proof
  assume "Ncount (linspace lo hi (Suc N)) v = i + 1"
  then show "linspace lo hi (Suc N) ! i \<le> v \<and>
           (v < linspace lo hi (Suc N) ! (i + 1) \<or> (i + 1 = N \<and> v = hi))"
    using Ncount_linspace_ex[OF assms(1,2,4,5)] by auto
next
  assume r: "linspace lo hi (Suc N) ! i \<le> v \<and>
           (v < linspace lo hi (Suc N) ! (i + 1) \<or> (i + 1 = N \<and> v = hi))"
  show "Ncount (linspace lo hi (Suc N)) v = i + 1"
  proof (cases "v < linspace lo hi (Suc N) ! (i + 1)")
    case True
    then show ?thesis using Ncount_linspace_inner[OF assms(1,2,3)] r by simp
  next
    case False
    with r have "i + 1 = N" "v = hi" by simp_all
    then show ?thesis using Ncount_linspace_top[OF assms(1,2)] by simp
  qed
qed


lemma grid_dim_pos: "0 < res \<Longrightarrow> 0 < ext \<Longrightarrow> \<exists>n. grid_dim ext res = Inr n \<and> 1 \<le> n \<and> n = \<lceil>ext / res\<rceil>"
  by (simp add: grid_dim_def)

lemma bin_edges_ok:
  "1 \<le> n \<Longrightarrow> lo < hi \<Longrightarrow> bin_edges n (lo, hi) = Inr (linspace lo hi (Suc (nat n)))"
  by (simp add: bin_edges_def get_outer_edges_def)

lemma histogram2d_ok:
  assumes "length yw = length xw" and "1 \<le> n" and "1 \<le> m" and "x0 < x1" and "y0 < y1"
    and "length w = length xw"
  shows "histogram2d xw yw (n, m) ((x0, x1), (y0, y1)) (Some w) =
           Inr (bincount (linspace x0 x1 (Suc (nat n))) (linspace y0 y1 (Suc (nat m)))
                  (zip (zip xw yw) w),
                linspace x0 x1 (Suc (nat n)), linspace y0 y1 (Suc (nat m)))"
    and "histogram2d xw yw (n, m) ((x0, x1), (y0, y1)) None =
           Inr (bincount (linspace x0 x1 (Suc (nat n))) (linspace y0 y1 (Suc (nat m)))
                  (zip (zip xw yw) (replicate (length xw) 1)),
                linspace x0 x1 (Suc (nat n)), linspace y0 y1 (Suc (nat m)))"
  using assms by (simp_all add: histogram2d_def bin_edges_ok)

lemma build_map_ok:
  assumes "xw \<noteq> []" and "length yw = length xw" and "length inten = length xw"
    and "0 < res" and "Min (set xw) < Max (set xw)" and "Min (set yw) < Max (set yw)"
  shows "build_map res xw yw inten =
     Inr \<lparr> heatmap =
             normalise
               (bincount (linspace (Min (set xw)) (Max (set xw)) (Suc (nat \<lceil>(Max (set xw) - Min (set xw)) / res\<rceil>)))
                  (linspace (Min (set yw)) (Max (set yw)) (Suc (nat \<lceil>(Max (set yw) - Min (set yw)) / res\<rceil>)))
                  (zip (zip xw yw) inten))
               (bincount (linspace (Min (set xw)) (Max (set xw)) (Suc (nat \<lceil>(Max (set xw) - Min (set xw)) / res\<rceil>)))
                  (linspace (Min (set yw)) (Max (set yw)) (Suc (nat \<lceil>(Max (set yw) - Min (set yw)) / res\<rceil>)))
                  (zip (zip xw yw) (replicate (length xw) 1))),
           counts =
               bincount (linspace (Min (set xw)) (Max (set xw)) (Suc (nat \<lceil>(Max (set xw) - Min (set xw)) / res\<rceil>)))
                  (linspace (Min (set yw)) (Max (set yw)) (Suc (nat \<lceil>(Max (set yw) - Min (set yw)) / res\<rceil>)))
                  (zip (zip xw yw) (replicate (length xw) 1)),
           xedges = linspace (Min (set xw)) (Max (set xw)) (Suc (nat \<lceil>(Max (set xw) - Min (set xw)) / res\<rceil>)),
           yedges = linspace (Min (set yw)) (Max (set yw)) (Suc (nat \<lceil>(Max (set yw) - Min (set yw)) / res\<rceil>)),
           nx = \<lceil>(Max (set xw) - Min (set xw)) / res\<rceil>,
           ny = \<lceil>(Max (set yw) - Min (set yw)) / res\<rceil>,
           xmin = Min (set xw), xmax = Max (set xw), ymin = Min (set yw), ymax = Max (set yw) \<rparr>"
proof -
  obtain n where n: "grid_dim (Max (set xw) - Min (set xw)) res = Inr n" "1 \<le> n"
    "n = \<lceil>(Max (set xw) - Min (set xw)) / res\<rceil>"
    using grid_dim_pos[OF assms(4), of "Max (set xw) - Min (set xw)"] assms(5) by auto
  obtain m where m: "grid_dim (Max (set yw) - Min (set yw)) res = Inr m" "1 \<le> m"
    "m = \<lceil>(Max (set yw) - Min (set yw)) / res\<rceil>"
    using grid_dim_pos[OF assms(4), of "Max (set yw) - Min (set yw)"] assms(6) by auto
  have ne: "yw \<noteq> []" using assms(1,2) by auto
  show ?thesis
    unfolding build_map_def Let_def
    using assms(1) ne
    by (simp add: n(1) m(1) histogram2d_ok[OF assms(2) n(2) m(2) assms(5,6)] assms(3))
       (simp add: n(3) m(3))
qed


lemma length_bincount: "length (bincount xe ye sample) = length xe - 1"
  by (simp add: bincount_def)

lemma length_bincount_row: "row \<in> set (bincount xe ye sample) \<Longrightarrow> length row = length ye - 1"
  by (auto simp add: bincount_def)

lemma bincount_nth:
  "i < length xe - 1 \<Longrightarrow> j < length ye - 1 \<Longrightarrow>
   bincount xe ye sample ! i ! j = sum_list (map snd (filter (in_cell xe ye i j) sample))"
  by (simp add: bincount_def)

lemma length_normalise: "length (normalise hm cnt) = min (length hm) (length cnt)"
  by (simp add: normalise_def)

lemma normalise_nth:
  "i < length hm \<Longrightarrow> i < length cnt \<Longrightarrow> j < length (hm ! i) \<Longrightarrow> j < length (cnt ! i) \<Longrightarrow>
   normalise hm cnt ! i ! j = (if cnt ! i ! j > 0 then hm ! i ! j / cnt ! i ! j else hm ! i ! j)"
  by (simp add: normalise_def)

lemma length_normalise_row:
  assumes "row \<in> set (normalise hm cnt)"
    and "\<And>r. r \<in> set hm \<Longrightarrow> length r = m" and "\<And>r. r \<in> set cnt \<Longrightarrow> length r = m"
  shows "length row = m"
proof -
  from assms(1) obtain a b where "(a, b) \<in> set (zip hm cnt)" "row = map2 (\<lambda>h c. if c > 0 then h / c else h) a b"
    by (auto simp add: normalise_def)
  moreover from this have "length a = m" "length b = m"
    using assms(2,3) by (auto dest: set_zip_leftD set_zip_rightD)
  ultimately show ?thesis by simp
qed

lemma count_cell:
  "length w = length xy \<Longrightarrow>
   length (filter (in_cell xe ye i j) (zip xy w)) = length (filter (\<lambda>p. in_cell xe ye i j (p, 0)) xy)"
  by (induction xy w rule: list_induct2') (simp_all add: in_cell_def)

lemma sum_ones: "(\<And>z. z \<in> set zs \<Longrightarrow> snd z = (1::real)) \<Longrightarrow> sum_list (map snd zs) = real (length zs)"
  by (induction zs) simp_all

lemma counts_cell:
  assumes "length inten = length xy"
  shows "sum_list (map snd (filter (in_cell xe ye i j) (zip xy (replicate (length xy) 1)))) =
         real (length (filter (in_cell xe ye i j) (zip xy inten)))"
proof -
  have "sum_list (map snd (filter (in_cell xe ye i j) (zip xy (replicate (length xy) 1)))) =
        real (length (filter (in_cell xe ye i j) (zip xy (replicate (length xy) (1::real)))))"
    by (rule sum_ones) (auto dest: set_zip_rightD)
  also have "\<dots> = real (length (filter (\<lambda>p. in_cell xe ye i j (p, 0)) xy))"
    by (simp add: count_cell)
  also have "\<dots> = real (length (filter (in_cell xe ye i j) (zip xy inten)))"
    using assms by (simp add: count_cell)
  finally show ?thesis .
qed

subsection \<open>The raster of a successful run\<close>

lemma build_map_fields:
  assumes "xw \<noteq> []" and "length yw = length xw" and "length inten = length xw"
    and "0 < res" and "Min (set xw) < Max (set xw)" and "Min (set yw) < Max (set yw)"
  obtains r where "build_map res xw yw inten = Inr r"
    and "xmin r = Min (set xw)" and "xmax r = Max (set xw)"
    and "ymin r = Min (set yw)" and "ymax r = Max (set yw)"
    and "nx r = \<lceil>(xmax r - xmin r) / res\<rceil>" and "ny r = \<lceil>(ymax r - ymin r) / res\<rceil>"
    and "1 \<le> nx r" and "1 \<le> ny r"
    and "xedges r = linspace (xmin r) (xmax r) (Suc (nat (nx r)))"
    and "yedges r = linspace (ymin r) (ymax r) (Suc (nat (ny r)))"
    and "counts r = bincount (xedges r) (yedges r) (zip (zip xw yw) (replicate (length xw) 1))"
    and "heatmap r = normalise (bincount (xedges r) (yedges r) (zip (zip xw yw) inten)) (counts r)"
proof -
  have pos: "1 \<le> \<lceil>(Max (set xw) - Min (set xw)) / res\<rceil>"
    "1 \<le> \<lceil>(Max (set yw) - Min (set yw)) / res\<rceil>"
    using assms(4,5,6) by simp_all
  define r where "r = projr (build_map res xw yw inten)"
  have r: "build_map res xw yw inten = Inr r"
    by (simp add: r_def build_map_ok[OF assms])
  have f: "xmin r = Min (set xw)" "xmax r = Max (set xw)"
      "ymin r = Min (set yw)" "ymax r = Max (set yw)"
      "nx r = \<lceil>(Max (set xw) - Min (set xw)) / res\<rceil>"
      "ny r = \<lceil>(Max (set yw) - Min (set yw)) / res\<rceil>"
      "xedges r = linspace (Min (set xw)) (Max (set xw)) (Suc (nat \<lceil>(Max (set xw) - Min (set xw)) / res\<rceil>))"
      "yedges r = linspace (Min (set yw)) (Max (set yw)) (Suc (nat \<lceil>(Max (set yw) - Min (set yw)) / res\<rceil>))"
    by (simp_all add: r_def build_map_ok[OF assms])
  have c: "counts r =
       bincount (linspace (Min (set xw)) (Max (set xw)) (Suc (nat \<lceil>(Max (set xw) - Min (set xw)) / res\<rceil>)))
          (linspace (Min (set yw)) (Max (set yw)) (Suc (nat \<lceil>(Max (set yw) - Min (set yw)) / res\<rceil>)))
          (zip (zip xw yw) (replicate (length xw) 1))"
    by (simp add: r_def build_map_ok[OF assms])
  have h: "heatmap r =
       normalise
         (bincount (linspace (Min (set xw)) (Max (set xw)) (Suc (nat \<lceil>(Max (set xw) - Min (set xw)) / res\<rceil>)))
            (linspace (Min (set yw)) (Max (set yw)) (Suc (nat \<lceil>(Max (set yw) - Min (set yw)) / res\<rceil>)))
            (zip (zip xw yw) inten))
         (bincount (linspace (Min (set xw)) (Max (set xw)) (Suc (nat \<lceil>(Max (set xw) - Min (set xw)) / res\<rceil>)))
            (linspace (Min (set yw)) (Max (set yw)) (Suc (nat \<lceil>(Max (set yw) - Min (set yw)) / res\<rceil>)))
            (zip (zip xw yw) (replicate (length xw) 1)))"
    by (simp add: r_def build_map_ok[OF assms])
  show ?thesis
  proof (rule that[of r])
    show "build_map res xw yw inten = Inr r" by (rule r)
    show "xmin r = Min (set xw)" "xmax r = Max (set xw)" "ymin r = Min (set yw)" "ymax r = Max (set yw)"
      by (rule f)+
    show "nx r = \<lceil>(xmax r - xmin r) / res\<rceil>" "ny r = \<lceil>(ymax r - ymin r) / res\<rceil>"
      by (simp_all only: f)
    show "1 \<le> nx r" "1 \<le> ny r" using pos by (simp_all only: f)
    show "xedges r = linspace (xmin r) (xmax r) (Suc (nat (nx r)))"
      "yedges r = linspace (ymin r) (ymax r) (Suc (nat (ny r)))"
      by (simp_all only: f)
    show "counts r = bincount (xedges r) (yedges r) (zip (zip xw yw) (replicate (length xw) 1))"
      by (simp only: f c)
    show "heatmap r = normalise (bincount (xedges r) (yedges r) (zip (zip xw yw) inten)) (counts r)"
      by (simp only: f c h)
  qed
qed

lemma cell_value:
  assumes "length inten = length xw" and "length yw = length xw"
    and "i < length xe - 1" and "j < length ye - 1"
  shows "bincount xe ye (zip (zip xw yw) (replicate (length xw) 1)) ! i ! j =
           real (length (cell_samples xe ye i j xw yw inten))"
    and "normalise (bincount xe ye (zip (zip xw yw) inten))
           (bincount xe ye (zip (zip xw yw) (replicate (length xw) 1))) ! i ! j =
         (if cell_samples xe ye i j xw yw inten = [] then 0
          else sum_list (map snd (cell_samples xe ye i j xw yw inten)) /
               real (length (cell_samples xe ye i j xw yw inten)))"
proof -
  have len: "length (zip xw yw) = length xw" using assms(2) by simp
  show c: "bincount xe ye (zip (zip xw yw) (replicate (length xw) 1)) ! i ! j =
           real (length (cell_samples xe ye i j xw yw inten))"
    using counts_cell[of inten "zip xw yw" xe ye i j] assms
    by (simp add: bincount_nth cell_samples_def)
  have h: "bincount xe ye (zip (zip xw yw) inten) ! i ! j =
           sum_list (map snd (cell_samples xe ye i j xw yw inten))"
    using assms(3,4) by (simp add: bincount_nth cell_samples_def)
  have "normalise (bincount xe ye (zip (zip xw yw) inten))
           (bincount xe ye (zip (zip xw yw) (replicate (length xw) 1))) ! i ! j =
        (if bincount xe ye (zip (zip xw yw) (replicate (length xw) 1)) ! i ! j > 0
         then bincount xe ye (zip (zip xw yw) inten) ! i ! j /
              bincount xe ye (zip (zip xw yw) (replicate (length xw) 1)) ! i ! j
         else bincount xe ye (zip (zip xw yw) inten) ! i ! j)"
    using assms(3,4) by (intro normalise_nth) (simp_all add: bincount_def)
  then show "normalise (bincount xe ye (zip (zip xw yw) inten))
           (bincount xe ye (zip (zip xw yw) (replicate (length xw) 1))) ! i ! j =
         (if cell_samples xe ye i j xw yw inten = [] then 0
          else sum_list (map snd (cell_samples xe ye i j xw yw inten)) /
               real (length (cell_samples xe ye i j xw yw inten)))"
    by (simp add: c h)
qed

lemma sample_has_cell:
  assumes "lo < hi" and "0 < N" and "lo' < hi'" and "0 < M"
    and "length yw = length xw" and "length inten = length xw" and "k < length xw"
    and "lo \<le> xw ! k" and "xw ! k \<le> hi" and "lo' \<le> yw ! k" and "yw ! k \<le> hi'"
  shows "\<exists>i<N. \<exists>j<M.
     ((xw ! k, yw ! k), inten ! k) \<in>
        set (cell_samples (linspace lo hi (Suc N)) (linspace lo' hi' (Suc M)) i j xw yw inten) \<and>
     (\<forall>i' j'. in_cell (linspace lo hi (Suc N)) (linspace lo' hi' (Suc M)) i' j'
                 ((xw ! k, yw ! k), inten ! k) \<longrightarrow> i' = i \<and> j' = j)"
proof -
  obtain i where i: "i < N" "Ncount (linspace lo hi (Suc N)) (xw ! k) = i + 1"
    using Ncount_linspace_ex[OF assms(1,2,8,9)] by blast
  obtain j where j: "j < M" "Ncount (linspace lo' hi' (Suc M)) (yw ! k) = j + 1"
    using Ncount_linspace_ex[OF assms(3,4,10,11)] by blast
  have "zip (zip xw yw) inten ! k = ((xw ! k, yw ! k), inten ! k)"
    using assms(5,6,7) by simp
  moreover have "k < length (zip (zip xw yw) inten)" using assms(5,6,7) by simp
  ultimately have "((xw ! k, yw ! k), inten ! k) \<in> set (zip (zip xw yw) inten)"
    by (metis nth_mem)
  then have "((xw ! k, yw ! k), inten ! k) \<in>
        set (cell_samples (linspace lo hi (Suc N)) (linspace lo' hi' (Suc M)) i j xw yw inten)"
    using i(2) j(2) by (simp add: cell_samples_def in_cell_def)
  moreover have "i' = i \<and> j' = j"
    if "in_cell (linspace lo hi (Suc N)) (linspace lo' hi' (Suc M)) i' j' ((xw ! k, yw ! k), inten ! k)"
    for i' j'
    using that i(2) j(2) by (simp add: in_cell_def)
  ultimately show ?thesis using i(1) j(1) by blast
qed

lemma in_cell_iff:
  assumes "lo < hi" and "0 < N" and "lo' < hi'" and "0 < M" and "i < N" and "j < M"
    and "lo \<le> x" and "x \<le> hi" and "lo' \<le> y" and "y \<le> hi'"
  shows "in_cell (linspace lo hi (Suc N)) (linspace lo' hi' (Suc M)) i j ((x, y), v) \<longleftrightarrow>
     (linspace lo hi (Suc N) ! i \<le> x \<and>
        (x < linspace lo hi (Suc N) ! (i + 1) \<or> (i + 1 = N \<and> x = hi))) \<and>
     (linspace lo' hi' (Suc M) ! j \<le> y \<and>
        (y < linspace lo' hi' (Suc M) ! (j + 1) \<or> (j + 1 = M \<and> y = hi')))"
  using Ncount_linspace_iff[OF assms(1,2,5,7,8)] Ncount_linspace_iff[OF assms(3,4,6,9,10)]
  by (simp add: in_cell_def)

subsection \<open>When the map is built\<close>

lemma Min_le_Max_list: "xs \<noteq> [] \<Longrightarrow> Min (set xs) \<le> Max (set xs)"
  by (simp add: Min_le_iff)

lemma build_map_error_kind:
  "build_map res xw yw inten = Inl e \<Longrightarrow> e = ValueError \<or> e = OverflowError"
  by (auto simp add: build_map_def grid_dim_def histogram2d_def bin_edges_def get_outer_edges_def
        Let_def split: if_splits sum.splits prod.splits)

lemma bin_edges_Inr: "bin_edges n (lo, hi) = Inr es \<Longrightarrow> 1 \<le> n"
  by (simp add: bin_edges_def split: if_splits)

lemma histogram2d_Inr:
  "histogram2d x y (n, m) rng w = Inr h \<Longrightarrow>
     length x = length y \<and> 1 \<le> n \<and> 1 \<le> m \<and> (\<forall>ws. w = Some ws \<longrightarrow> length ws = length x)"
  by (cases rng) (auto simp add: histogram2d_def Let_def split: if_splits sum.splits dest: bin_edges_Inr)

lemma ceiling_pos_quot:
  fixes d res :: real
  assumes "0 \<le> d" and "1 \<le> \<lceil>d / res\<rceil>"
  shows "0 < d \<and> 0 < res"
proof -
  from assms(2) have "0 < d / res" by simp
  then show ?thesis using assms(1) by (auto simp add: zero_less_divide_iff)
qed

lemma build_map_Inr:
  assumes "build_map res xw yw inten = Inr r"
  shows "xw \<noteq> [] \<and> length yw = length xw \<and> length inten = length xw \<and> 0 < res \<and>
         Min (set xw) < Max (set xw) \<and> Min (set yw) < Max (set yw)"
proof -
  from assms have ne: "xw \<noteq> []" "yw \<noteq> []"
    by (auto simp add: build_map_def split: if_splits)
  from assms ne obtain n where n: "grid_dim (Max (set xw) - Min (set xw)) res = Inr n"
    by (auto simp add: build_map_def Let_def split: sum.splits)
  from assms ne n obtain m where m: "grid_dim (Max (set yw) - Min (set yw)) res = Inr m"
    by (auto simp add: build_map_def Let_def split: sum.splits)
  from assms ne n m obtain h where
    h: "histogram2d xw yw (n, m) ((Min (set xw), Max (set xw)), (Min (set yw), Max (set yw))) (Some inten) = Inr h"
    by (auto simp add: build_map_def Let_def split: sum.splits)
  from histogram2d_Inr[OF h] have l: "length xw = length yw" "1 \<le> n" "1 \<le> m" "length inten = length xw"
    by simp_all
  from n have nv: "res \<noteq> 0" "n = \<lceil>(Max (set xw) - Min (set xw)) / res\<rceil>"
    by (auto simp add: grid_dim_def split: if_splits)
  from m have mv: "m = \<lceil>(Max (set yw) - Min (set yw)) / res\<rceil>"
    by (auto simp add: grid_dim_def split: if_splits)
  have "0 < Max (set xw) - Min (set xw) \<and> 0 < res"
    using Min_le_Max_list[OF ne(1)] l(2) nv(2) by (intro ceiling_pos_quot) simp_all
  moreover have "0 < Max (set yw) - Min (set yw) \<and> 0 < res"
    using Min_le_Max_list[OF ne(2)] l(3) mv by (intro ceiling_pos_quot) simp_all
  ultimately show ?thesis using ne l by simp
qed


text \<open>The size of a cell when an extent is cut into \<open>ceil(extent / resolution)\<close> cells.\<close>

lemma ceiling_cell:
  fixes d res :: real
  assumes "0 < d" and "0 < res"
  shows "1 \<le> \<lceil>d / res\<rceil>"
    and "d / real_of_int \<lceil>d / res\<rceil> \<le> res"
    and "real_of_int (\<lceil>d / res\<rceil> - 1) * res < d"
    and "d / real_of_int \<lceil>d / res\<rceil> = res \<longleftrightarrow> (\<exists>k::int. d = real_of_int k * res)"
proof -
  have q: "0 < d / res" using assms by simp
  then show one: "1 \<le> \<lceil>d / res\<rceil>" by simp
  then have np: "0 < real_of_int \<lceil>d / res\<rceil>" by simp
  have "d / res \<le> real_of_int \<lceil>d / res\<rceil>" by (rule le_of_int_ceiling)
  then have "d \<le> real_of_int \<lceil>d / res\<rceil> * res"
    by (simp only: pos_divide_le_eq[OF assms(2)])
  then show "d / real_of_int \<lceil>d / res\<rceil> \<le> res"
    using np by (simp add: pos_divide_le_eq mult.commute)
  have "real_of_int \<lceil>d / res\<rceil> - 1 < d / res" by linarith
  then have "(real_of_int \<lceil>d / res\<rceil> - 1) * res < d"
    by (simp only: pos_less_divide_eq[OF assms(2)])
  then show "real_of_int (\<lceil>d / res\<rceil> - 1) * res < d" by simp
  show "d / real_of_int \<lceil>d / res\<rceil> = res \<longleftrightarrow> (\<exists>k::int. d = real_of_int k * res)"
  proof
    assume "d / real_of_int \<lceil>d / res\<rceil> = res"
    then have "d = real_of_int \<lceil>d / res\<rceil> * res"
      using np by (simp add: field_simps)
    then show "\<exists>k::int. d = real_of_int k * res" by blast
  next
    assume "\<exists>k::int. d = real_of_int k * res"
    then obtain k :: int where k: "d = real_of_int k * res" by blast
    then have "d / res = real_of_int k" using assms(2) by simp
    then have c: "\<lceil>d / res\<rceil> = k" by simp
    have "k \<noteq> 0" using k assms(1) by auto
    then show "d / real_of_int \<lceil>d / res\<rceil> = res"
      unfolding c using k by simp
  qed
qed

subsection \<open>Bounding box, grid, bins and means\<close>

text \<open>
  Claim C2 speaks of every non-empty set of samples. A set of one sample is not empty,
  and for it the map is not built: the grid dimension is \<open>ceil(0 / 1) = 0\<close>, and
  \<open>histogram2d\<close> raises \<open>ValueError\<close> instead of binning the sample.
\<close>

theorem nonempty_samples_unbinned:
  "build_map 1 [3] [4] [9] = Inl ValueError \<and>
   grid_dim (Max (set [3]) - Min (set [3])) 1 = Inr 0"
  by (simp add: map_simps)

text \<open>
  Claim C2, amended. For a positive resolution and a non-empty set of samples whose
  bounding box has a positive width and a positive height, the map is built: the box is
  the minimum and maximum of the world coordinates, the grid has
  \<open>ceil((xmax - xmin) / resolution)\<close> by \<open>ceil((ymax - ymin) / resolution)\<close> cells,
  every sample lies in exactly one cell of the grid, a cell holds the samples between its
  edges (the lower edge included, the upper edge only in the last cell), its count is the
  number of its samples, and its value is the sum of their intensities divided by the
  count when the count is positive.
\<close>

theorem build_map_bins_means:
  assumes "xw \<noteq> []" and "length yw = length xw" and "length inten = length xw"
    and "0 < res" and "Min (set xw) < Max (set xw)" and "Min (set yw) < Max (set yw)"
  shows "\<exists>r. build_map res xw yw inten = Inr r \<and>
     xmin r = Min (set xw) \<and> xmax r = Max (set xw) \<and>
     ymin r = Min (set yw) \<and> ymax r = Max (set yw) \<and>
     nx r = \<lceil>(xmax r - xmin r) / res\<rceil> \<and> ny r = \<lceil>(ymax r - ymin r) / res\<rceil> \<and>
     length (heatmap r) = nat (nx r) \<and> (\<forall>row \<in> set (heatmap r). length row = nat (ny r)) \<and>
     (\<forall>k < length xw. \<exists>i < nat (nx r). \<exists>j < nat (ny r).
        ((xw ! k, yw ! k), inten ! k) \<in> set (cell_samples (xedges r) (yedges r) i j xw yw inten) \<and>
        (\<forall>i' j'. in_cell (xedges r) (yedges r) i' j' ((xw ! k, yw ! k), inten ! k)
                   \<longrightarrow> i' = i \<and> j' = j)) \<and>
     (\<forall>i < nat (nx r). \<forall>j < nat (ny r).
        (\<forall>x y v. xmin r \<le> x \<and> x \<le> xmax r \<and> ymin r \<le> y \<and> y \<le> ymax r \<longrightarrow>
           (in_cell (xedges r) (yedges r) i j ((x, y), v) \<longleftrightarrow>
              (xedges r ! i \<le> x \<and> (x < xedges r ! (i + 1) \<or> (i + 1 = nat (nx r) \<and> x = xmax r))) \<and>
              (yedges r ! j \<le> y \<and> (y < yedges r ! (j + 1) \<or> (j + 1 = nat (ny r) \<and> y = ymax r))))) \<and>
        counts r ! i ! j = real (length (cell_samples (xedges r) (yedges r) i j xw yw inten)) \<and>
        heatmap r ! i ! j =
          (if cell_samples (xedges r) (yedges r) i j xw yw inten = [] then 0
           else sum_list (map snd (cell_samples (xedges r) (yedges r) i j xw yw inten)) /
                real (length (cell_samples (xedges r) (yedges r) i j xw yw inten))))"
proof -
  obtain r where r: "build_map res xw yw inten = Inr r"
    and b: "xmin r = Min (set xw)" "xmax r = Max (set xw)"
       "ymin r = Min (set yw)" "ymax r = Max (set yw)"
    and d: "nx r = \<lceil>(xmax r - xmin r) / res\<rceil>" "ny r = \<lceil>(ymax r - ymin r) / res\<rceil>"
    and p: "1 \<le> nx r" "1 \<le> ny r"
    and e: "xedges r = linspace (xmin r) (xmax r) (Suc (nat (nx r)))"
       "yedges r = linspace (ymin r) (ymax r) (Suc (nat (ny r)))"
    and c: "counts r = bincount (xedges r) (yedges r) (zip (zip xw yw) (replicate (length xw) 1))"
    and h: "heatmap r = normalise (bincount (xedges r) (yedges r) (zip (zip xw yw) inten)) (counts r)"
    using build_map_fields[OF assms] by blast
  have lt: "xmin r < xmax r" "ymin r < ymax r" using assms(5,6) by (simp_all add: b)
  have N: "0 < nat (nx r)" "0 < nat (ny r)" using p by simp_all
  have le: "length (xedges r) - 1 = nat (nx r)" "length (yedges r) - 1 = nat (ny r)"
    by (simp_all add: e length_linspace)
  have ne: "yw \<noteq> []" using assms(1,2) by auto
  have len: "length (heatmap r) = nat (nx r)"
    using le by (simp add: h c length_normalise length_bincount)
  have rows: "length row = nat (ny r)" if "row \<in> set (heatmap r)" for row
    using that unfolding h c
    by (rule length_normalise_row) (simp_all only: length_bincount_row le)
  have smp: "\<exists>i < nat (nx r). \<exists>j < nat (ny r).
        ((xw ! k, yw ! k), inten ! k) \<in> set (cell_samples (xedges r) (yedges r) i j xw yw inten) \<and>
        (\<forall>i' j'. in_cell (xedges r) (yedges r) i' j' ((xw ! k, yw ! k), inten ! k)
                   \<longrightarrow> i' = i \<and> j' = j)"
    if k: "k < length xw" for k
  proof -
    have "xw ! k \<in> set xw" "yw ! k \<in> set yw" using k assms(2) by simp_all
    then have "xmin r \<le> xw ! k" "xw ! k \<le> xmax r" "ymin r \<le> yw ! k" "yw ! k \<le> ymax r"
      by (simp_all add: b)
    then show ?thesis
      unfolding e
      by (intro sample_has_cell lt N assms(2,3) k)
  qed
  have cell: "(\<forall>x y v. xmin r \<le> x \<and> x \<le> xmax r \<and> ymin r \<le> y \<and> y \<le> ymax r \<longrightarrow>
           (in_cell (xedges r) (yedges r) i j ((x, y), v) \<longleftrightarrow>
              (xedges r ! i \<le> x \<and> (x < xedges r ! (i + 1) \<or> (i + 1 = nat (nx r) \<and> x = xmax r))) \<and>
              (yedges r ! j \<le> y \<and> (y < yedges r ! (j + 1) \<or> (j + 1 = nat (ny r) \<and> y = ymax r))))) \<and>
        counts r ! i ! j = real (length (cell_samples (xedges r) (yedges r) i j xw yw inten)) \<and>
        heatmap r ! i ! j =
          (if cell_samples (xedges r) (yedges r) i j xw yw inten = [] then 0
           else sum_list (map snd (cell_samples (xedges r) (yedges r) i j xw yw inten)) /
                real (length (cell_samples (xedges r) (yedges r) i j xw yw inten)))"
    if ij: "i < nat (nx r)" "j < nat (ny r)" for i j
  proof -
    have i1: "i < length (xedges r) - 1" and j1: "j < length (yedges r) - 1"
      using ij by (simp_all only: le)
    have 1: "in_cell (xedges r) (yedges r) i j ((x, y), v) \<longleftrightarrow>
              (xedges r ! i \<le> x \<and> (x < xedges r ! (i + 1) \<or> (i + 1 = nat (nx r) \<and> x = xmax r))) \<and>
              (yedges r ! j \<le> y \<and> (y < yedges r ! (j + 1) \<or> (j + 1 = nat (ny r) \<and> y = ymax r)))"
      if "xmin r \<le> x" "x \<le> xmax r" "ymin r \<le> y" "y \<le> ymax r" for x y v
      unfolding e by (intro in_cell_iff lt N ij that)
    have 2: "counts r ! i ! j = real (length (cell_samples (xedges r) (yedges r) i j xw yw inten))"
      unfolding c by (intro cell_value(1) assms(2,3) i1 j1)
    have 3: "heatmap r ! i ! j =
          (if cell_samples (xedges r) (yedges r) i j xw yw inten = [] then 0
           else sum_list (map snd (cell_samples (xedges r) (yedges r) i j xw yw inten)) /
                real (length (cell_samples (xedges r) (yedges r) i j xw yw inten)))"
      unfolding h c by (intro cell_value(2) assms(2,3) i1 j1)
    show ?thesis using 1 2 3 by blast
  qed
  show ?thesis
    using r b d len rows smp cell by blast
qed


text \<open>Samples \<open>(0, 0, 10)\<close>, \<open>(0, 0, 20)\<close> and \<open>(2, 2, 30)\<close> at resolution 1.\<close>

theorem build_map_bins_means_witness:
  "[0, 0, 2] \<noteq> ([] :: real list) \<and> (0::real) < 1 \<and>
   Min (set [0, 0, 2 :: real]) < Max (set [0, 0, 2]) \<and>
   build_map 1 [0, 0, 2] [0, 0, 2] [10, 20, 30] =
     Inr \<lparr>heatmap = [[15, 0], [0, 30]], counts = [[2, 0], [0, 1]],
          xedges = [0, 1, 2], yedges = [0, 1, 2], nx = 2, ny = 2,
          xmin = 0, xmax = 2, ymin = 0, ymax = 2\<rparr> \<and>
   cell_samples [0, 1, 2] [0, 1, 2] 0 0 [0, 0, 2] [0, 0, 2] [10, 20, 30] =
     [((0, 0), 10), ((0, 0), 20)]"
  using build_map_bins_means[of "[0, 0, 2]" "[0, 0, 2]" "[10, 20, 30]" 1]
  by (simp add: map_simps cell_samples_def upt_rec)

subsection \<open>Cells without samples\<close>

text \<open>
  Claim C3 says that a cell without samples is marked as having no data, apart from a
  cell of mean 0. In the raster of \<open>(0, 0, 0)\<close> and \<open>(2, 2, 5)\<close> the cell \<open>(0, 1)\<close>
  has no sample and the cell \<open>(0, 0)\<close> has mean 0: both hold 0. With a third sample
  \<open>(0.5, 1.5, 0)\<close> the cell \<open>(0, 1)\<close> has one sample, and the figure is the same.
\<close>

theorem empty_cell_same_as_zero_mean:
  "build_map 1 [0, 2] [0, 2] [0, 5] =
     Inr \<lparr>heatmap = [[0, 0], [0, 5]], counts = [[1, 0], [0, 1]],
          xedges = [0, 1, 2], yedges = [0, 1, 2], nx = 2, ny = 2,
          xmin = 0, xmax = 2, ymin = 0, ymax = 2\<rparr> \<and>
   build_map 1 [0, 2, 1 / 2] [0, 2, 3 / 2] [0, 5, 0] =
     Inr \<lparr>heatmap = [[0, 0], [0, 5]], counts = [[1, 1], [0, 1]],
          xedges = [0, 1, 2], yedges = [0, 1, 2], nx = 2, ny = 2,
          xmin = 0, xmax = 2, ymin = 0, ymax = 2\<rparr> \<and>
   map_sum id (savefig (cfg 1 1 None)) (build_map 1 [0, 2] [0, 2] [0, 5]) =
   map_sum id (savefig (cfg 1 1 None)) (build_map 1 [0, 2, 1 / 2] [0, 2, 3 / 2] [0, 5, 0])"
  by (simp add: map_simps savefig_def cfg_def upt_rec)

text \<open>
  Claim C3, amended. In the raster that is built, a cell has count 0 exactly when no
  sample lies in it, and then its value is 0, the value that a cell with samples of
  intensity sum 0 has as well. The figure is the transposed heat map alone: it carries
  no mark for a cell without data.
\<close>

theorem empty_cell_is_zero:
  assumes "build_map res xw yw inten = Inr r"
    and "i < nat (nx r)" and "j < nat (ny r)"
  shows "(counts r ! i ! j = 0 \<longleftrightarrow> cell_samples (xedges r) (yedges r) i j xw yw inten = []) \<and>
         (counts r ! i ! j = 0 \<longrightarrow> heatmap r ! i ! j = 0) \<and>
         (counts r ! i ! j > 0 \<and>
          sum_list (map snd (cell_samples (xedges r) (yedges r) i j xw yw inten)) = 0 \<longrightarrow>
            heatmap r ! i ! j = 0) \<and>
         image (savefig a r) = transpose (heatmap r)"
proof -
  from build_map_Inr[OF assms(1)] have ok:
    "xw \<noteq> []" "length yw = length xw" "length inten = length xw" "0 < res"
    "Min (set xw) < Max (set xw)" "Min (set yw) < Max (set yw)"
    by simp_all
  obtain r' where r': "build_map res xw yw inten = Inr r'"
    and e: "xedges r' = linspace (xmin r') (xmax r') (Suc (nat (nx r')))"
       "yedges r' = linspace (ymin r') (ymax r') (Suc (nat (ny r')))"
    and c: "counts r' = bincount (xedges r') (yedges r') (zip (zip xw yw) (replicate (length xw) 1))"
    and h: "heatmap r' = normalise (bincount (xedges r') (yedges r') (zip (zip xw yw) inten)) (counts r')"
    using build_map_fields[OF ok] by blast
  from r' assms(1) have eq: "r' = r" by simp
  have le: "length (xedges r) - 1 = nat (nx r)" "length (yedges r) - 1 = nat (ny r)"
    using e by (simp_all add: eq length_linspace)
  have i1: "i < length (xedges r) - 1" and j1: "j < length (yedges r) - 1"
    using assms(2,3) by (simp_all only: le)
  have 2: "counts r ! i ! j = real (length (cell_samples (xedges r) (yedges r) i j xw yw inten))"
    using c unfolding eq by (simp only: cell_value(1)[OF ok(3,2) i1 j1])
  have 3: "heatmap r ! i ! j =
          (if cell_samples (xedges r) (yedges r) i j xw yw inten = [] then 0
           else sum_list (map snd (cell_samples (xedges r) (yedges r) i j xw yw inten)) /
                real (length (cell_samples (xedges r) (yedges r) i j xw yw inten)))"
    using h c unfolding eq by (simp only: cell_value(2)[OF ok(3,2) i1 j1])
  show ?thesis
    by (simp add: 2 3 savefig_def)
qed

text \<open>The cell \<open>(0, 1)\<close> of the raster of \<open>(0, 0, 0)\<close> and \<open>(2, 2, 5)\<close>.\<close>

theorem empty_cell_is_zero_witness:
  "build_map 1 [0, 2] [0, 2] [0, 5] =
     Inr \<lparr>heatmap = [[0, 0], [0, 5]], counts = [[1, 0], [0, 1]],
          xedges = [0, 1, 2], yedges = [0, 1, 2], nx = 2, ny = 2,
          xmin = 0, xmax = 2, ymin = 0, ymax = 2\<rparr> \<and>
   cell_samples [0, 1, 2] [0, 1, 2] 0 1 [0, 2] [0, 2] [0, 5] = [] \<and>
   [[0, 0], [0, 5 :: real]] ! 0 ! 1 = 0"
  using empty_cell_is_zero[of 1 "[0, 2]" "[0, 2]" "[0, 5]"
      "\<lparr>heatmap = [[0, 0], [0, 5]], counts = [[1, 0], [0, 1]],
          xedges = [0, 1, 2], yedges = [0, 1, 2], nx = 2, ny = 2,
          xmin = 0, xmax = 2, ymin = 0, ymax = 2\<rparr>" 0 1]
  by (simp add: map_simps cell_samples_def upt_rec)


subsection \<open>Extent and cell size\<close>

text \<open>
  Claim C4 says that every cell has the size of the resolution. Samples with
  \<open>x = 0\<close> and \<open>x = 2.5\<close> at resolution 1 give three cells over \<open>[0, 2.5]\<close>: the
  cells are \<open>5/6\<close> wide.
\<close>

theorem cell_size_not_resolution:
  "build_map 1 [0, 5 / 2] [0, 1] [1, 1] =
     Inr \<lparr>heatmap = [[1], [0], [1]], counts = [[1], [0], [1]],
          xedges = [0, 5 / 6, 5 / 3, 5 / 2], yedges = [0, 1], nx = 3, ny = 1,
          xmin = 0, xmax = 5 / 2, ymin = 0, ymax = 1\<rparr> \<and>
   [0, 5 / 6, 5 / 3, 5 / 2 :: real] ! 1 - [0, 5 / 6, 5 / 3, 5 / 2] ! 0 \<noteq> 1"
  by (simp add: map_simps upt_rec)

text \<open>
  Claim C4, amended. The raster is built only for a positive resolution. Its extent, and
  that of the figure, is the bounding box of the samples: the first and last edge of an
  axis are the minimum and the maximum. An axis has \<open>ceil(extent / resolution)\<close> cells
  of one size, \<open>extent / ceil(extent / resolution)\<close>. This size is at most the
  resolution, one cell less of the size of the resolution would not cover the extent,
  and the size is the resolution exactly when the extent is an integer multiple of the
  resolution.
\<close>

theorem grid_extent_and_cell_size:
  assumes "build_map res xw yw inten = Inr r"
  shows "0 < res \<and>
     extent (savefig a r) = (Min (set xw), Max (set xw), Min (set yw), Max (set yw)) \<and>
     xmin r = Min (set xw) \<and> xmax r = Max (set xw) \<and>
     ymin r = Min (set yw) \<and> ymax r = Max (set yw) \<and>
     nx r = \<lceil>(xmax r - xmin r) / res\<rceil> \<and> ny r = \<lceil>(ymax r - ymin r) / res\<rceil> \<and>
     1 \<le> nx r \<and> 1 \<le> ny r \<and>
     length (xedges r) = nat (nx r) + 1 \<and> length (yedges r) = nat (ny r) + 1 \<and>
     xedges r ! 0 = xmin r \<and> last (xedges r) = xmax r \<and>
     yedges r ! 0 = ymin r \<and> last (yedges r) = ymax r \<and>
     (\<forall>i < nat (nx r). xedges r ! (i + 1) - xedges r ! i =
        (xmax r - xmin r) / real_of_int \<lceil>(xmax r - xmin r) / res\<rceil>) \<and>
     (\<forall>j < nat (ny r). yedges r ! (j + 1) - yedges r ! j =
        (ymax r - ymin r) / real_of_int \<lceil>(ymax r - ymin r) / res\<rceil>) \<and>
     (xmax r - xmin r) / real_of_int \<lceil>(xmax r - xmin r) / res\<rceil> \<le> res \<and>
     (ymax r - ymin r) / real_of_int \<lceil>(ymax r - ymin r) / res\<rceil> \<le> res \<and>
     real_of_int (\<lceil>(xmax r - xmin r) / res\<rceil> - 1) * res < xmax r - xmin r \<and>
     real_of_int (\<lceil>(ymax r - ymin r) / res\<rceil> - 1) * res < ymax r - ymin r \<and>
     ((xmax r - xmin r) / real_of_int \<lceil>(xmax r - xmin r) / res\<rceil> = res \<longleftrightarrow>
        (\<exists>k::int. xmax r - xmin r = real_of_int k * res)) \<and>
     ((ymax r - ymin r) / real_of_int \<lceil>(ymax r - ymin r) / res\<rceil> = res \<longleftrightarrow>
        (\<exists>k::int. ymax r - ymin r = real_of_int k * res))"
proof -
  from build_map_Inr[OF assms(1)] have ok:
    "xw \<noteq> []" "length yw = length xw" "length inten = length xw" "0 < res"
    "Min (set xw) < Max (set xw)" "Min (set yw) < Max (set yw)"
    by simp_all
  obtain r' where r': "build_map res xw yw inten = Inr r'"
    and b': "xmin r' = Min (set xw)" "xmax r' = Max (set xw)"
       "ymin r' = Min (set yw)" "ymax r' = Max (set yw)"
    and d': "nx r' = \<lceil>(xmax r' - xmin r') / res\<rceil>" "ny r' = \<lceil>(ymax r' - ymin r') / res\<rceil>"
    and p': "1 \<le> nx r'" "1 \<le> ny r'"
    and e': "xedges r' = linspace (xmin r') (xmax r') (Suc (nat (nx r')))"
       "yedges r' = linspace (ymin r') (ymax r') (Suc (nat (ny r')))"
    using build_map_fields[OF ok] by blast
  from r' assms(1) have eq: "r' = r" by simp
  note b = b'[unfolded eq] and d = d'[unfolded eq] and p = p'[unfolded eq] and e = e'[unfolded eq]
  have N: "0 < nat (nx r)" "0 < nat (ny r)" using p by simp_all
  have rn: "real (nat (nx r)) = real_of_int (nx r)" "real (nat (ny r)) = real_of_int (ny r)"
    using p by simp_all
  have dx: "0 < xmax r - xmin r" and dy: "0 < ymax r - ymin r"
    using ok(5,6) by (simp_all add: b)
  have ext: "extent (savefig a r) = (Min (set xw), Max (set xw), Min (set yw), Max (set yw))"
    by (simp add: savefig_def b)
  have len: "length (xedges r) = nat (nx r) + 1" "length (yedges r) = nat (ny r) + 1"
    by (simp_all add: e length_linspace)
  have ends: "xedges r ! 0 = xmin r" "last (xedges r) = xmax r"
    "yedges r ! 0 = ymin r" "last (yedges r) = ymax r"
    using N by (simp_all add: e hd_linspace last_linspace)
  have wx: "xedges r ! (i + 1) - xedges r ! i =
      (xmax r - xmin r) / real_of_int \<lceil>(xmax r - xmin r) / res\<rceil>"
    if "i < nat (nx r)" for i
  proof -
    define w where "w = (xmax r - xmin r) / real (nat (nx r))"
    have "xedges r ! (i + 1) = xmin r + real (i + 1) * w" "xedges r ! i = xmin r + real i * w"
      using that nth_linspace[of "i + 1" "nat (nx r)" "xmin r" "xmax r"]
        nth_linspace[of i "nat (nx r)" "xmin r" "xmax r"]
      by (simp_all add: e w_def)
    then have "xedges r ! (i + 1) - xedges r ! i = w" by (simp add: algebra_simps)
    then have "xedges r ! (i + 1) - xedges r ! i = (xmax r - xmin r) / real_of_int (nx r)"
      by (simp add: w_def rn)
    then show ?thesis by (simp only: d(1)[symmetric])
  qed
  have wy: "yedges r ! (j + 1) - yedges r ! j =
      (ymax r - ymin r) / real_of_int \<lceil>(ymax r - ymin r) / res\<rceil>"
    if "j < nat (ny r)" for j
  proof -
    define w where "w = (ymax r - ymin r) / real (nat (ny r))"
    have "yedges r ! (j + 1) = ymin r + real (j + 1) * w" "yedges r ! j = ymin r + real j * w"
      using that nth_linspace[of "j + 1" "nat (ny r)" "ymin r" "ymax r"]
        nth_linspace[of j "nat (ny r)" "ymin r" "ymax r"]
      by (simp_all add: e w_def)
    then have "yedges r ! (j + 1) - yedges r ! j = w" by (simp add: algebra_simps)
    then have "yedges r ! (j + 1) - yedges r ! j = (ymax r - ymin r) / real_of_int (ny r)"
      by (simp add: w_def rn)
    then show ?thesis by (simp only: d(2)[symmetric])
  qed
  note cx = ceiling_cell[OF dx ok(4)] and cy = ceiling_cell[OF dy ok(4)]
  show ?thesis
    using ok(4) ext b d p len ends wx wy cx(2,3,4) cy(2,3,4) by blast
qed

text \<open>
  The raster of the samples \<open>(0, 0)\<close> and \<open>(2.5, 1)\<close> at resolution 1: three cells
  of width \<open>5/6\<close> in \<open>x\<close>, one cell of width 1 in \<open>y\<close>.
\<close>

theorem grid_extent_and_cell_size_witness:
  "build_map 1 [0, 5 / 2] [0, 1] [1, 1] =
     Inr \<lparr>heatmap = [[1], [0], [1]], counts = [[1], [0], [1]],
          xedges = [0, 5 / 6, 5 / 3, 5 / 2], yedges = [0, 1], nx = 3, ny = 1,
          xmin = 0, xmax = 5 / 2, ymin = 0, ymax = 1\<rparr> \<and>
   extent (savefig (cfg 1 1 None)
     \<lparr>heatmap = [[1], [0], [1]], counts = [[1], [0], [1]],
          xedges = [0, 5 / 6, 5 / 3, 5 / 2], yedges = [0, 1], nx = 3, ny = 1,
          xmin = 0, xmax = 5 / 2, ymin = 0, ymax = 1\<rparr>) = (0, 5 / 2, 0, 1) \<and>
   \<lceil>(5 / 2 - 0) / (1 :: real)\<rceil> = 3 \<and>
   [0, 5 / 6, 5 / 3, 5 / 2 :: real] ! (0 + 1) - [0, 5 / 6, 5 / 3, 5 / 2] ! 0 = (5 / 2 - 0) / real_of_int 3 \<and>
   ((5 / 2 - 0) / real_of_int 3 :: real) \<le> 1 \<and>
   real_of_int (3 - 1) * (1 :: real) < 5 / 2 - 0 \<and>
   [0, 1 :: real] ! (0 + 1) - [0, 1] ! 0 = (1 :: real)"
  using grid_extent_and_cell_size[of 1 "[0, 5 / 2]" "[0, 1]" "[1, 1]"
     "\<lparr>heatmap = [[1], [0], [1]], counts = [[1], [0], [1]],
          xedges = [0, 5 / 6, 5 / 3, 5 / 2], yedges = [0, 1], nx = 3, ny = 1,
          xmin = 0, xmax = 5 / 2, ymin = 0, ymax = 1\<rparr>" "cfg 1 1 None"]
  by (simp add: map_simps savefig_def upt_rec)

subsection \<open>A bounding box without width or height\<close>

lemma set_const: "xs \<noteq> [] \<Longrightarrow> \<forall>x \<in> set xs. x = c \<Longrightarrow> set xs = {c}"
  by (cases xs) auto

lemma bin_edges_zero: "bin_edges 0 rng = Inl ValueError"
  by (simp add: bin_edges_def)

lemma histogram2d_error_kind:
  "histogram2d x y bins rng w = Inl e \<Longrightarrow> e = ValueError"
  by (auto simp add: histogram2d_def bin_edges_def get_outer_edges_def Let_def
        split: if_splits sum.splits prod.splits)

lemma histogram2d_zero_bins:
  "n = 0 \<or> m = 0 \<Longrightarrow> histogram2d x y (n, m) rng w = Inl ValueError"
  by (auto simp add: histogram2d_def bin_edges_def get_outer_edges_def Let_def
        split: if_splits sum.splits prod.splits)

text \<open>
  Claim C10. When all samples of a non-empty set have the same \<open>x\<close> (or the same
  \<open>y\<close>), the grid dimension of that axis is \<open>ceil(0 / resolution) = 0\<close>, the edges
  of a histogram of 0 bins are refused with \<open>ValueError\<close>, and so is the whole map,
  although the input is not empty. (For resolution 0 the run fails earlier, at
  \<open>int\<close>.)
\<close>

theorem degenerate_extent_fails:
  assumes "xw \<noteq> []" and "res \<noteq> 0"
    and "(\<forall>x \<in> set xw. x = c) \<or> (yw \<noteq> [] \<and> (\<forall>y \<in> set yw. y = c))"
  shows "build_map res xw yw inten = Inl ValueError \<and>
         ((\<forall>x \<in> set xw. x = c) \<longrightarrow> grid_dim (Max (set xw) - Min (set xw)) res = Inr 0) \<and>
         (yw \<noteq> [] \<and> (\<forall>y \<in> set yw. y = c) \<longrightarrow> grid_dim (Max (set yw) - Min (set yw)) res = Inr 0) \<and>
         bin_edges 0 rng = Inl ValueError"
proof -
  have gx: "grid_dim (Max (set xw) - Min (set xw)) res = Inr 0" if "\<forall>x \<in> set xw. x = c"
    using set_const[OF assms(1) that] assms(2) by (simp add: grid_dim_def)
  have gy: "grid_dim (Max (set yw) - Min (set yw)) res = Inr 0"
    if "yw \<noteq> [] \<and> (\<forall>y \<in> set yw. y = c)"
    using set_const[of yw c] that assms(2) by (simp add: grid_dim_def)
  have "build_map res xw yw inten = Inl ValueError"
  proof (cases "yw = []")
    case True
    then show ?thesis by (simp add: build_map_def)
  next
    case False
    obtain n m where nm: "grid_dim (Max (set xw) - Min (set xw)) res = Inr n"
      "grid_dim (Max (set yw) - Min (set yw)) res = Inr m"
      using assms(2) by (simp add: grid_dim_def)
    have "n = 0 \<or> m = 0" using assms(3) gx gy nm False by auto
    then have "histogram2d xw yw (n, m)
        ((Min (set xw), Max (set xw)), (Min (set yw), Max (set yw))) (Some inten) = Inl ValueError"
      by (rule histogram2d_zero_bins)
    then show ?thesis
      using assms(1) False nm by (simp add: build_map_def Let_def)
  qed
  then show ?thesis using gx gy by (simp add: bin_edges_zero)
qed

text \<open>Two samples on the line \<open>x = 3\<close>, and a run whose only frame gives them.\<close>

theorem degenerate_extent_fails_witness:
  "[3, 3] \<noteq> ([] :: real list) \<and> (1 :: real) \<noteq> 0 \<and> set [3, 3 :: real] = {3} \<and>
   build_map 1 [3, 3] [0, 5] [7, 9] = Inl ValueError \<and>
   grid_dim (Max (set [3, 3]) - Min (set [3, 3])) 1 = Inr 0 \<and>
   run (cfg 1 1 None) (nav 3 0 0 @ [OculusRaw (Some [px 0 0 7, px 0 5 9])]) = Inl ValueError"
  using degenerate_extent_fails[of "[3, 3]" 1 3 "[0, 5]" "[7, 9]"]
  by (simp add: run_def eval_simps map_simps)

section \<open>Properties of the whole run\<close>

subsection \<open>No sonar data\<close>

lemma all_xw_empty_iff: "all_xw (read_bag a init_state evs) = [] \<longleftrightarrow> processed a init_state evs = []"
  using read_bag_samples[of a init_state evs] by (simp add: init_state_def)

lemma run_RuntimeError_iff:
  "run a evs = Inl (RuntimeError msg) \<longleftrightarrow> msg = no_sonar_data \<and> processed a init_state evs = []"
  using all_xw_empty_iff[of a evs]
  by (auto simp add: run_def Let_def split: sum.splits dest: build_map_error_kind)

text \<open>
  Claim C8. The run ends in the \<open>RuntimeError\<close> "No sonar data collected" exactly
  when no frame was processed; in particular when no frame was accepted, or when no
  sonar message arrived under a complete pose. The result is then the error and no
  figure: \<open>savefig\<close> is not reached.
\<close>

theorem empty_input_runtime_error:
  "(processed a init_state evs = [] \<longleftrightarrow> run a evs = Inl (RuntimeError no_sonar_data)) \<and>
   (accepted a init_state evs = [] \<longrightarrow> run a evs = Inl (RuntimeError no_sonar_data)) \<and>
   (eligible (poses init_state) evs = [] \<longrightarrow> run a evs = Inl (RuntimeError no_sonar_data)) \<and>
   (processed (parse_args c) init_state evs = [] \<longrightarrow> main c evs = Inl (RuntimeError no_sonar_data))"
proof -
  have 1: "processed a init_state evs = [] \<longleftrightarrow> run a evs = Inl (RuntimeError no_sonar_data)" for a
    by (simp add: run_RuntimeError_iff)
  have 2: "processed a init_state evs = []" if "accepted a init_state evs = []"
    using that by (simp add: processed_def decoded_simps)
  have 3: "accepted a init_state evs = []" if "eligible (poses init_state) evs = []"
    using that by (simp add: accepted_def strided_Nil capped_Nil)
  show ?thesis using 1 2 3 by (simp add: main_def)
qed

text \<open>A frame before the pose is complete, and one frame under stride 5.\<close>

theorem empty_input_runtime_error_witness:
  "eligible (poses init_state) [OculusRaw (Some [px 0 0 1, px 1 1 2]), GlobalPosition 0 0, CompassHdg 0] = [] \<and>
   run (cfg 1 1 None) [OculusRaw (Some [px 0 0 1, px 1 1 2]), GlobalPosition 0 0, CompassHdg 0] =
     Inl (RuntimeError no_sonar_data) \<and>
   accepted (cfg 1 5 None) init_state (nav 0 0 0 @ [OculusRaw (Some [px 0 0 1, px 1 1 2])]) = [] \<and>
   run (cfg 1 5 None) (nav 0 0 0 @ [OculusRaw (Some [px 0 0 1, px 1 1 2])]) =
     Inl (RuntimeError no_sonar_data)"
  using empty_input_runtime_error[of "cfg 1 1 None"
      "[OculusRaw (Some [px 0 0 1, px 1 1 2]), GlobalPosition 0 0, CompassHdg 0]"]
    empty_input_runtime_error[of "cfg 1 5 None" "nav 0 0 0 @ [OculusRaw (Some [px 0 0 1, px 1 1 2])]"]
  by (simp add: eval_simps)


subsection \<open>Configurations that are not positive\<close>

lemma loop_body_stride_le_1:
  "skip_frames a \<le> 1 \<Longrightarrow> loop_body a s ev = loop_body (a\<lparr>skip_frames := 1\<rparr>) s ev"
  by (cases ev) (simp_all add: Let_def)

lemma read_bag_stride_le_1:
  "skip_frames a \<le> 1 \<Longrightarrow> read_bag a s evs = read_bag (a\<lparr>skip_frames := 1\<rparr>) s evs"
  by (induction evs arbitrary: s) (simp_all add: loop_body_stride_le_1[symmetric] split: flow.splits)

lemma run_stride_le_1:
  assumes "skip_frames a \<le> 1"
  shows "run a evs = run (a\<lparr>skip_frames := 1\<rparr>) evs"
proof -
  have "savefig (a\<lparr>skip_frames := 1\<rparr>) = savefig a"
    by (simp add: savefig_def fun_eq_iff)
  then show ?thesis
    by (simp add: run_def Let_def read_bag_stride_le_1[OF assms, symmetric] cong: sum.case_cong)
qed

lemma run_cap_le_0:
  assumes "max_frames a = Some m" and "m \<le> 0"
  shows "run a evs = Inl (RuntimeError no_sonar_data)"
proof -
  have "accepted a init_state evs = []"
    using assms by (simp add: accepted_def capped_def init_state_def)
  then have "processed a init_state evs = []" by (simp add: processed_def decoded_simps)
  then show ?thesis by (simp add: run_RuntimeError_iff)
qed

lemma run_resolution_le_0:
  assumes "resolution a \<le> 0"
  shows "\<exists>e. run a evs = Inl e"
proof (cases "run a evs")
  case (Inl e)
  then show ?thesis by simp
next
  case (Inr fig)
  then obtain r where
    "build_map (resolution a) (concat (all_xw (read_bag a init_state evs)))
       (concat (all_yw (read_bag a init_state evs))) (concat (all_int (read_bag a init_state evs))) = Inr r"
    by (auto simp add: run_def Let_def split: if_splits sum.splits)
  from build_map_Inr[OF this] assms show ?thesis by simp
qed

text \<open>
  Claim C9 says that a stride that is not positive is rejected before the stream is
  read. \<open>parse_args\<close> checks no range: with \<open>--skip-frames 0\<close> the stream is read
  and the figure is saved.
\<close>

theorem nonpositive_stride_runs:
  "main (cli None None (Some 0)) (nav 0 0 0 @ [OculusRaw (Some [px 0 0 4, px 1 1 8])]) =
     Inr \<lparr>image = [[4, 0], [0, 8]], extent = (0, 1, 0, 1), path = ''seabed_map.png''\<rparr>"
  by (simp add: main_def parse_args_def cli_def run_def savefig_def eval_simps map_simps upt_rec)

text \<open>
  Claim C9, amended. No configuration is rejected before the stream is read. A cap that
  is not positive always ends in the \<open>RuntimeError\<close> "No sonar data collected", raised
  after the loop. A resolution that is not positive always ends in an error, raised
  after the loop: that \<open>RuntimeError\<close> when the stream gives no samples, and an error
  of the map otherwise. A stride that is not positive is no error: the run is the run
  with stride 1.
\<close>

theorem nonpositive_config_not_rejected:
  "(opt_max_frames c = Some m \<and> m \<le> 0 \<longrightarrow> main c evs = Inl (RuntimeError no_sonar_data)) \<and>
   (opt_resolution c = Some r \<and> r \<le> 0 \<longrightarrow>
      (\<exists>e. main c evs = Inl e) \<and>
      (main c evs = Inl (RuntimeError no_sonar_data) \<longleftrightarrow> processed (parse_args c) init_state evs = [])) \<and>
   (opt_skip_frames c = Some n \<and> n \<le> 1 \<longrightarrow> main c evs = main (c\<lparr>opt_skip_frames := Some 1\<rparr>) evs)"
proof -
  have 1: "main c evs = Inl (RuntimeError no_sonar_data)" if "opt_max_frames c = Some m" "m \<le> 0"
    unfolding main_def using that by (intro run_cap_le_0[of _ m]) (simp_all add: parse_args_def)
  have 2: "\<exists>e. main c evs = Inl e" if "opt_resolution c = Some r" "r \<le> 0"
    unfolding main_def using that by (intro run_resolution_le_0) (simp add: parse_args_def)
  have 3: "main c evs = Inl (RuntimeError no_sonar_data) \<longleftrightarrow> processed (parse_args c) init_state evs = []"
    by (simp add: main_def run_RuntimeError_iff)
  have 4: "main c evs = main (c\<lparr>opt_skip_frames := Some 1\<rparr>) evs" if "opt_skip_frames c = Some n" "n \<le> 1"
  proof -
    have "skip_frames (parse_args c) \<le> 1" using that by (simp add: parse_args_def)
    then have "run (parse_args c) evs = run ((parse_args c)\<lparr>skip_frames := 1\<rparr>) evs"
      by (rule run_stride_le_1)
    also have "(parse_args c)\<lparr>skip_frames := 1\<rparr> = parse_args (c\<lparr>opt_skip_frames := Some 1\<rparr>)"
      by (simp add: parse_args_def)
    finally show ?thesis by (simp add: main_def)
  qed
  show ?thesis using 1 2 3 4 by blast
qed

text \<open>One frame of two pixels under cap 0, resolution \<open>-1\<close>, resolution 0 and stride \<open>-2\<close>.\<close>

theorem nonpositive_config_not_rejected_witness:
  "main (cli None (Some 0) None) (nav 0 0 0 @ [OculusRaw (Some [px 0 0 4, px 1 1 8])]) =
     Inl (RuntimeError no_sonar_data) \<and>
   main (cli (Some (- 1)) None None) (nav 0 0 0 @ [OculusRaw (Some [px 0 0 4, px 1 1 8])]) =
     Inl ValueError \<and>
   main (cli (Some 0) None None) (nav 0 0 0 @ [OculusRaw (Some [px 0 0 4, px 1 1 8])]) =
     Inl OverflowError \<and>
   main (cli None None (Some (- 2))) (nav 0 0 0 @ [OculusRaw (Some [px 0 0 4, px 1 1 8])]) =
     Inr \<lparr>image = [[4, 0], [0, 8]], extent = (0, 1, 0, 1), path = ''seabed_map.png''\<rparr>"
  using nonpositive_config_not_rejected[of "cli None (Some 0) None" 0
      "nav 0 0 0 @ [OculusRaw (Some [px 0 0 4, px 1 1 8])]"]
    nonpositive_config_not_rejected[of "cli (Some (- 1)) None None" _
      "nav 0 0 0 @ [OculusRaw (Some [px 0 0 4, px 1 1 8])]" "- 1"]
    nonpositive_config_not_rejected[of "cli None None (Some (- 2))" _
      "nav 0 0 0 @ [OculusRaw (Some [px 0 0 4, px 1 1 8])]" _ "- 2"]
  by (simp add: main_def parse_args_def cli_def run_def savefig_def eval_simps map_simps upt_rec)

end
